theory Spec2Isabelle
  imports Complex_Main "HOL-Library.Multiset"
begin

section \<open>JavaScript values used by the scoring engine\<close>

text \<open>
  The engine is JavaScript. Its numbers are read here as exact rationals: every score,
  weight and ratio of the program is a short decimal, and the properties below are
  about the formulas, not about the rounding error of IEEE doubles. Counts and word
  counts are natural numbers. Strings are HOL strings, that is, byte strings: the model
  covers ASCII text.

  \<open>Math.round\<close> rounds to the nearest integer, a tie towards plus infinity.
\<close>

definition Math_round :: "rat \<Rightarrow> int" where
  "Math_round x = \<lfloor>x + 1 / 2\<rfloor>"

text \<open>The idiom \<open>Math.round(x * 10) / 10\<close>: one decimal.\<close>

definition round1 :: "rat \<Rightarrow> rat" where
  "round1 x = of_int (Math_round (x * 10)) / 10"

text \<open>The idiom \<open>Math.round(x * 100) / 100\<close>: two decimals.\<close>

definition round2 :: "rat \<Rightarrow> rat" where
  "round2 x = of_int (Math_round (x * 100)) / 100"

text \<open>Template literals print a non-negative integer in decimal.\<close>

definition digitChar :: "nat \<Rightarrow> char" where
  "digitChar d = ''0123456789'' ! d"

function showNat :: "nat \<Rightarrow> string" where
  "showNat n = (if n < 10 then [digitChar n] else showNat (n div 10) @ [digitChar (n mod 10)])"
  by pat_completeness auto
termination
  by (relation "measure id") auto

declare showNat.simps [simp del]

section \<open>Parser: heading hierarchy (\<open>js/parser.js\<close>)\<close>

text \<open>
  \<open>Parser.validateHeadingHierarchy(levels)\<close>. The levels are the integers parsed from the
  tag names \<open>h1\<close> .. \<open>h6\<close>. The loop carries the index, the previous level (0 before the
  first heading) and the issues pushed so far.
\<close>

record hierarchy_issue =
  hi_type :: string
  hi_message :: string
  hi_index :: nat

record hierarchy =
  valid :: bool
  h_issues :: "hierarchy_issue list"

definition skipped :: "nat \<Rightarrow> nat \<Rightarrow> nat \<Rightarrow> hierarchy_issue" where
  "skipped previousLevel currentLevel i =
     \<lparr>hi_type = ''skipped'',
      hi_message = ''Heading level skipped from h'' @ showNat previousLevel @ '' to h''
                   @ showNat currentLevel,
      hi_index = i\<rparr>"

fun hierarchyLoop :: "nat \<Rightarrow> nat \<Rightarrow> nat list \<Rightarrow> hierarchy_issue list \<Rightarrow> hierarchy_issue list" where
  "hierarchyLoop i previousLevel [] issues = issues"
| "hierarchyLoop i previousLevel (currentLevel # rest) issues =
     hierarchyLoop (i + 1) currentLevel rest
       (if currentLevel > previousLevel + 1 \<and> previousLevel \<noteq> 0
        then issues @ [skipped previousLevel currentLevel i]
        else issues)"

definition validateHeadingHierarchy :: "nat list \<Rightarrow> hierarchy" where
  "validateHeadingHierarchy levels =
     (if length levels = 0 then \<lparr>valid = True, h_issues = []\<rparr>
      else let issues = hierarchyLoop 0 0 levels []
           in \<lparr>valid = (length issues = 0), h_issues = issues\<rparr>)"

text \<open>
  The positions of a list of levels where the level rises by more than one over the
  heading just before it: the reading of a forward skip.
\<close>

definition forwardSkips :: "nat list \<Rightarrow> nat list" where
  "forwardSkips levels =
     filter (\<lambda>i. levels ! i > levels ! (i - 1) + 1) [1 ..< length levels]"

section \<open>Report data (\<open>js/scorer.js\<close>)\<close>

text \<open>
  An issue as the evaluators build it. The JavaScript field \<open>fix\<close> is \<open>fix_hint\<close> here.
  \<open>category\<close> and \<open>categoryKey\<close> are absent until \<open>collectAllIssues\<close> attaches them.
  The free-text \<open>details\<close> fields of issues and criteria print floating-point numbers
  and are left out of the model; no score, severity or message depends on them.
\<close>

record issue =
  severity :: string
  message :: string
  fix_hint :: "string option"
  location :: "string option"
  excerpt :: "string option"
  category :: "string option"
  categoryKey :: "string option"

record criterion_result =
  criterionId :: "string option"
  score :: rat
  issues :: "issue list"

record section_score =
  sec_title :: string
  sec_level :: nat
  sec_score :: rat
  sec_criteria :: "(string \<times> criterion_result) list"
  sec_issues :: "issue list"
  sec_wordCount :: nat

text \<open>
  A category of the report. \<open>cat_score = None\<close> is JavaScript \<open>null\<close>;
  \<open>cat_weight = None\<close> is a missing \<open>weight\<close>; a missing \<open>estimated\<close> is \<open>False\<close>.
  Objects with string keys are association lists in insertion order, as
  \<open>Object.entries\<close> lists them.
\<close>

record category_result =
  cat_id :: string
  cat_name :: string
  cat_score :: "rat option"
  cat_weight :: "rat option"
  cat_criteria :: "(string \<times> criterion_result) list"
  cat_issues :: "issue list"
  estimated :: bool
  cat_message :: "string option"
  sectionScores :: "section_score list"
  sectionRollup :: "rat option"

text \<open>Assignment \<open>obj[key] = v\<close>: an existing key keeps its place, a new one goes last.\<close>

fun assign :: "('k \<times> 'v) list \<Rightarrow> 'k \<Rightarrow> 'v \<Rightarrow> ('k \<times> 'v) list" where
  "assign [] k v = [(k, v)]"
| "assign ((k', v') # kvs) k v = (if k' = k then (k, v) # kvs else (k', v') # assign kvs k v)"

definition CATEGORY_WEIGHTS :: "(string \<times> rat) list" where
  "CATEGORY_WEIGHTS =
     [(''content-structure'', 30 / 100),
      (''outcomes-reversibility'', 25 / 100),
      (''terminology'', 15 / 100),
      (''text-over-visuals'', 10 / 100),
      (''self-contained'', 5 / 100),
      (''permissions-plans'', 15 / 100)]"

text \<open>\<open>this.CATEGORY_WEIGHTS[key]\<close> for a key the scorer itself writes.\<close>

definition weightOf :: "string \<Rightarrow> rat option" where
  "weightOf key = map_of CATEGORY_WEIGHTS key"

text \<open>
  \<open>Scorer.averageScores(criteria)\<close>. Every score of the model is a number, so the
  filter \<open>typeof s === 'number'\<close> keeps all of them.
\<close>

definition averageScores :: "(string \<times> criterion_result) list \<Rightarrow> rat" where
  "averageScores criteria =
     (let scores = map (\<lambda>(k, c). score c) criteria
      in if length scores = 0 then 0
         else round1 (foldl (+) 0 scores / of_nat (length scores)))"

text \<open>
  \<open>Scorer.calculateCompositeScore(categories)\<close>. The weight of a category is
  \<open>category.weight || this.CATEGORY_WEIGHTS[key] || 0\<close>: its own weight unless that is
  missing or zero, then the table's, then 0. The \<open>forEach\<close> carries
  \<open>(totalWeight, weightedSum)\<close>.
\<close>

definition effectiveWeight :: "string \<Rightarrow> category_result \<Rightarrow> rat" where
  "effectiveWeight key c =
     (case cat_weight c of
        Some w \<Rightarrow> if w \<noteq> 0 then w else (case weightOf key of Some t \<Rightarrow> t | None \<Rightarrow> 0)
      | None \<Rightarrow> (case weightOf key of Some t \<Rightarrow> t | None \<Rightarrow> 0))"

definition qualifies :: "category_result \<Rightarrow> bool" where
  "qualifies c = (cat_score c \<noteq> None \<and> \<not> estimated c)"

definition compositeStep :: "rat \<times> rat \<Rightarrow> string \<times> category_result \<Rightarrow> rat \<times> rat" where
  "compositeStep acc kc =
     (case acc of (totalWeight, weightedSum) \<Rightarrow>
      case kc of (key, c) \<Rightarrow>
        if qualifies c
        then (totalWeight + effectiveWeight key c,
              weightedSum + the (cat_score c) * effectiveWeight key c)
        else (totalWeight, weightedSum))"

definition calculateCompositeScore :: "(string \<times> category_result) list \<Rightarrow> rat" where
  "calculateCompositeScore categories =
     (case foldl compositeStep (0, 0) categories of (totalWeight, weightedSum) \<Rightarrow>
        if totalWeight = 0 then 0 else round1 (weightedSum / totalWeight))"

definition getStatus :: "rat \<Rightarrow> string" where
  "getStatus s = (if s \<ge> 7 then ''green'' else if s \<ge> 4 then ''yellow'' else ''red'')"

text \<open>
  \<open>Scorer.collectAllIssues(categories)\<close>. \<open>severityOrder[a.severity] ?? 3\<close> is the rank;
  \<open>Array.prototype.sort\<close> is a stable sort, here the stable insertion sort
  \<open>sort_key\<close> on the rank.
\<close>

definition severityOrder :: "string \<Rightarrow> nat option" where
  "severityOrder = map_of [(''critical'', 0), (''warning'', 1), (''info'', 2)]"

definition sevRank :: "issue \<Rightarrow> nat" where
  "sevRank a = (case severityOrder (severity a) of Some n \<Rightarrow> n | None \<Rightarrow> 3)"

definition attach :: "string \<Rightarrow> category_result \<Rightarrow> issue \<Rightarrow> issue" where
  "attach key c a = a\<lparr>category := Some (cat_name c), categoryKey := Some key\<rparr>"

definition flattenIssues :: "(string \<times> category_result) list \<Rightarrow> issue list" where
  "flattenIssues categories =
     concat (map (\<lambda>(key, c). map (attach key c) (cat_issues c)) categories)"

definition collectAllIssues :: "(string \<times> category_result) list \<Rightarrow> issue list" where
  "collectAllIssues categories = sort_key sevRank (flattenIssues categories)"

definition getTopIssues :: "issue list \<Rightarrow> nat \<Rightarrow> issue list" where
  "getTopIssues all n = take n all"



section \<open>Strings\<close>

text \<open>\<open>s.startsWith(t)\<close>, \<open>s.includes(t)\<close>, \<open>xs.join(sep)\<close> and \<open>s.toLowerCase()\<close> on ASCII text.\<close>

definition startsWith :: "string \<Rightarrow> string \<Rightarrow> bool" where
  "startsWith s t = (take (length t) s = t)"

fun str_includes :: "string \<Rightarrow> string \<Rightarrow> bool" where
  "str_includes [] t = (t = [])"
| "str_includes (c # cs) t = (startsWith (c # cs) t \<or> str_includes cs t)"

fun join :: "string \<Rightarrow> string list \<Rightarrow> string" where
  "join sep [] = []"
| "join sep [x] = x"
| "join sep (x # y # ys) = x @ sep @ join sep (y # ys)"

definition lowerChar :: "char \<Rightarrow> char" where
  "lowerChar c =
     (let n = (of_char c :: nat) in if 65 \<le> n \<and> n \<le> 90 then char_of (n + 32) else c)"

definition toLowerCase :: "string \<Rightarrow> string" where
  "toLowerCase s = map lowerChar s"

definition quoted :: "string \<Rightarrow> string" where
  "quoted s = CHR 0x22 # s @ [CHR 0x22]"

section \<open>Configuration (\<open>window.ScoringConfig\<close>)\<close>

text \<open>
  The global configuration object is a parameter of every evaluator. It holds the
  paragraph threshold of CS-01, the ideal list ratio of CS-02 and the weight of a
  criterion within its category; each may be missing. \<open>x || d\<close> falls back to \<open>d\<close> when
  \<open>x\<close> is missing or zero. Configured weights are taken to be positive numbers.
\<close>

record scoring_config =
  cfg_threshold :: "nat option"
  cfg_idealRatio :: "rat option"
  cfg_weight :: "string \<Rightarrow> string \<Rightarrow> rat option"

definition orElse :: "'a::zero option \<Rightarrow> 'a \<Rightarrow> 'a" where
  "orElse x d = (case x of None \<Rightarrow> d | Some v \<Rightarrow> if v = 0 then d else v)"

definition noConfig :: scoring_config where
  "noConfig = \<lparr>cfg_threshold = None, cfg_idealRatio = None, cfg_weight = (\<lambda>c k. None)\<rparr>"

section \<open>Metrics and content (\<open>js/parser.js\<close>)\<close>

text \<open>
  The metrics object the evaluators read. \<open>sentences\<close> is optional; the three list
  counts are missing in the metrics the scorer builds for one section.
\<close>

record long_paragraph =
  lp_text :: string
  lp_wordCount :: nat
  lp_index :: nat

record long_sample =
  ls_paragraphIndex :: nat
  ls_wordCount :: nat
  ls_text :: string

record sentence_metrics =
  sm_total :: nat
  sm_avgLength :: nat
  sm_longCount :: nat
  sm_complexCount :: nat
  sm_longSamples :: "long_sample list"

record paragraph_metrics =
  pm_count :: nat
  pm_avgLength :: int
  pm_maxLength :: nat
  pm_longCount :: nat
  pm_longParagraphs :: "long_paragraph list"
  pm_sentences :: "sentence_metrics option"

record heading_metrics =
  hm_count :: nat
  hm_hasH1 :: bool
  hm_hasH2 :: bool
  hm_h1Count :: nat
  hm_firstLevel :: "nat option"
  hm_hierarchyValid :: hierarchy
  hm_levels :: "nat list"

record list_metrics =
  lm_count :: nat
  lm_totalItems :: nat
  lm_listToParagraphRatio :: rat
  lm_orderedCount :: "nat option"
  lm_proceduralCount :: "nat option"
  lm_descriptiveCount :: "nat option"

record missing_alt =
  ma_src :: string
  ma_index :: nat

record image_metrics =
  im_count :: nat
  im_withAlt :: nat
  im_withoutAlt :: nat
  im_altTextCoverage :: rat
  im_imageToTextRatio :: rat
  im_missingAlt :: "missing_alt list"

record content_metrics =
  cm_totalBlocks :: nat
  cm_visualBlocks :: nat
  cm_visualToContentRatio :: rat
  cm_wordCount :: nat
  cm_codeBlocks :: nat
  cm_tables :: nat

record broken_link =
  bl_href :: string
  bl_index :: nat

record link_metrics =
  km_total :: nat
  km_internal :: nat
  km_external :: nat
  km_brokenCount :: nat
  km_brokenLinks :: "broken_link list"

record metrics =
  m_paragraphs :: paragraph_metrics
  m_headings :: heading_metrics
  m_lists :: list_metrics
  m_images :: image_metrics
  m_content :: content_metrics
  m_links :: link_metrics

text \<open>The normalized content of a page, as far as the scorer reads it.\<close>

record content_paragraph =
  p_text :: string
  p_wordCount :: nat
  p_index :: nat

record content_list =
  cl_type :: string
  cl_items :: "string list"
  cl_itemCount :: nat

record content_image =
  ci_hasAlt :: bool

record content_section =
  cs_title :: string
  cs_level :: nat
  cs_paragraphs :: "content_paragraph list"
  cs_lists :: "content_list list"
  cs_images :: "content_image list"
  cs_tables :: nat
  cs_codeBlocks :: nat
  cs_wordCount :: nat

record normalized_content =
  nc_url :: string
  nc_title :: string
  nc_paragraphs :: "content_paragraph list"
  nc_lists :: "content_list list"
  nc_fullText :: string
  nc_sections :: "content_section list"

text \<open>
  The \<open>paragraphs\<close> field of \<open>Parser.computeMetrics(content)\<close>. The long paragraphs are
  those of more than 150 words: the constant is written in the parser, which reads no
  configuration. The parser writes no \<open>sentences\<close>.
\<close>

definition substring100 :: "string \<Rightarrow> string" where
  "substring100 s = take 100 s @ ''...''"

definition computeMetrics_paragraphs :: "content_paragraph list \<Rightarrow> paragraph_metrics" where
  "computeMetrics_paragraphs ps =
     (let paragraphLengths = map p_wordCount ps;
          longParagraphs = filter (\<lambda>p. p_wordCount p > 150) ps;
          avgParagraphLength =
            (if length paragraphLengths > 0
             then of_nat (foldl (+) 0 paragraphLengths) / of_nat (length paragraphLengths)
             else (0::rat))
      in \<lparr>pm_count = length ps,
          pm_avgLength = Math_round avgParagraphLength,
          pm_maxLength = (if length paragraphLengths > 0 then foldl max 0 paragraphLengths else 0),
          pm_longCount = length longParagraphs,
          pm_longParagraphs =
            map (\<lambda>p. \<lparr>lp_text = substring100 (p_text p), lp_wordCount = p_wordCount p,
                        lp_index = p_index p\<rparr>) longParagraphs,
          pm_sentences = None\<rparr>)"

section \<open>Content structure rules (\<open>js/rules/content-structure.js\<close>)\<close>

definition mkIssue :: "string \<Rightarrow> string \<Rightarrow> string option \<Rightarrow> string option \<Rightarrow> string option \<Rightarrow> issue" where
  "mkIssue sev msg fx loc exc =
     \<lparr>severity = sev, message = msg, fix_hint = fx, location = loc, excerpt = exc,
      category = None, categoryKey = None\<rparr>"

text \<open>\<open>ContentStructureRules.scoreParagraphBrevity(metrics)\<close>, criterion CS-01.\<close>

definition longParagraphIssue :: "nat \<Rightarrow> long_paragraph \<Rightarrow> issue" where
  "longParagraphIssue threshold p =
     mkIssue (if lp_wordCount p > 200 then ''critical'' else ''warning'')
       (''Paragraph '' @ showNat (lp_index p + 1) @ '' has '' @ showNat (lp_wordCount p)
          @ '' words (threshold: '' @ showNat threshold @ '')'')
       (Some ''Consider breaking this paragraph into bullet points or shorter sections'')
       (Some (''Paragraph '' @ showNat (lp_index p + 1)))
       (Some (lp_text p))"

definition longSampleIssue :: "long_sample \<Rightarrow> issue" where
  "longSampleIssue sample =
     mkIssue ''info''
       (''Long sentence in paragraph '' @ showNat (ls_paragraphIndex sample + 1) @ '' (''
          @ showNat (ls_wordCount sample) @ '' words)'')
       (Some ''Break this sentence into shorter sentences'')
       (Some (''Paragraph '' @ showNat (ls_paragraphIndex sample + 1)))
       (Some (ls_text sample))"

text \<open>
  The block guarded by \<open>paragraphs.sentences && paragraphs.sentences.total > 0\<close>: whether
  the long-sentence ratio exceeds 0.2, and the issues the block pushes.
\<close>

definition longSentencePenalty :: "sentence_metrics option \<Rightarrow> bool" where
  "longSentencePenalty ss =
     (case ss of None \<Rightarrow> False
      | Some s \<Rightarrow> sm_total s > 0 \<and> (of_nat (sm_longCount s) / of_nat (sm_total s) :: rat) > 2 / 10)"

definition sentenceIssues :: "sentence_metrics option \<Rightarrow> issue list" where
  "sentenceIssues ss =
     (case ss of None \<Rightarrow> []
      | Some s \<Rightarrow>
          if sm_total s > 0
          then (if longSentencePenalty ss
                then [mkIssue ''warning'' (showNat (sm_longCount s) @ '' long sentences detected'')
                        (Some ''Split long sentences into shorter, single-idea statements'') None None]
                else [])
             @ (if sm_complexCount s > 0
                then [mkIssue ''info''
                        (showNat (sm_complexCount s) @ '' sentences have multiple clauses'')
                        (Some ''Reduce clause density for better readability'') None None]
                else [])
             @ map longSampleIssue (sm_longSamples s)
          else [])"

definition scoreParagraphBrevity :: "scoring_config \<Rightarrow> metrics \<Rightarrow> criterion_result" where
  "scoreParagraphBrevity cfg ms =
     (let ps = m_paragraphs ms;
          threshold = orElse (cfg_threshold cfg) 150
      in if pm_count ps = 0 then \<lparr>criterionId = Some ''CS-01'', score = 10, issues = []\<rparr>
         else
           let underThreshold = int (pm_count ps) - int (pm_longCount ps);
               percentageGood = (of_int underThreshold / of_nat (pm_count ps) :: rat);
               score0 = (of_int (Math_round (percentageGood * 10)) :: rat);
               score1 = (if longSentencePenalty (pm_sentences ps) then score0 - 1 else score0)
           in \<lparr>criterionId = Some ''CS-01'',
               score = max 0 (min 10 score1),
               issues = map (longParagraphIssue threshold) (pm_longParagraphs ps)
                        @ sentenceIssues (pm_sentences ps)\<rparr>)"

text \<open>\<open>ContentStructureRules.scoreListUsage(metrics)\<close>, criterion CS-02.\<close>

definition positive :: "nat option \<Rightarrow> bool" where
  "positive x = (case x of None \<Rightarrow> False | Some n \<Rightarrow> n > 0)"

definition isZero :: "nat option \<Rightarrow> bool" where
  "isZero x = (case x of None \<Rightarrow> False | Some n \<Rightarrow> n = 0)"

definition scoreListUsage :: "scoring_config \<Rightarrow> metrics \<Rightarrow> criterion_result" where
  "scoreListUsage cfg ms =
     (let ls = m_lists ms; ps = m_paragraphs ms;
          idealRatio = orElse (cfg_idealRatio cfg) (3 / 10);
          actualRatio = lm_listToParagraphRatio ls
      in if pm_count ps = 0 \<and> lm_count ls = 0
         then \<lparr>criterionId = Some ''CS-02'', score = 5,
               issues = [mkIssue ''info'' ''No paragraphs or lists found'' None None None]\<rparr>
         else
           let score0 = (if actualRatio \<ge> idealRatio
                         then min 10 (7 + (actualRatio - idealRatio) * 10)
                         else of_int (Math_round ((actualRatio / idealRatio) * 7)));
               score1 = max 0 (min 10 (of_int (Math_round score0)));
               unordered = (positive (lm_proceduralCount ls) \<and> isZero (lm_orderedCount ls));
               score2 = (if unordered then score1 - 1 else score1)
           in \<lparr>criterionId = Some ''CS-02'',
               score = max 0 score2,
               issues =
                 (if actualRatio < 1 / 10 \<and> pm_count ps > 3
                  then [mkIssue ''warning'' ''Low list usage in procedural content''
                          (Some ''Consider converting step-by-step instructions into numbered lists'')
                          None None]
                  else [])
                 @ (if unordered
                    then [mkIssue ''warning'' ''Procedural lists are not ordered''
                            (Some ''Use numbered lists for step-by-step instructions'') None None]
                    else [])
                 @ (if positive (lm_descriptiveCount ls) \<and> isZero (lm_proceduralCount ls)
                       \<and> lm_count ls > 0
                    then [mkIssue ''info'' ''Lists appear descriptive rather than procedural''
                            (Some ''Ensure procedural steps are captured in ordered lists'') None None]
                    else [])\<rparr>)"

text \<open>\<open>ContentStructureRules.scoreHeadingHierarchy(metrics)\<close>, criterion CS-04.\<close>

definition hierarchyIssue :: "hierarchy_issue \<Rightarrow> issue" where
  "hierarchyIssue h =
     mkIssue ''warning'' (hi_message h)
       (Some ''Maintain proper heading hierarchy without skipping levels'')
       (Some (''Heading '' @ showNat (hi_index h + 1))) None"

definition scoreHeadingHierarchy :: "metrics \<Rightarrow> criterion_result" where
  "scoreHeadingHierarchy ms =
     (let hs = m_headings ms
      in if hm_count hs = 0
         then \<lparr>criterionId = Some ''CS-04'', score = 3,
               issues = [mkIssue ''critical'' ''No headings found''
                           (Some ''Add descriptive headings to structure the content'') None None]\<rparr>
         else
           let noH1 = \<not> hm_hasH1 hs;
               manyH1 = hm_h1Count hs > 1;
               deepStart = (case hm_firstLevel hs of None \<Rightarrow> False | Some l \<Rightarrow> l \<noteq> 0 \<and> l > 1);
               noH2 = (\<not> hm_hasH2 hs \<and> list_ex (\<lambda>level. level \<ge> 3) (hm_levels hs));
               invalid = \<not> valid (hm_hierarchyValid hs);
               skipCount = length (h_issues (hm_hierarchyValid hs));
               headingsPerContentBlock =
                 (of_nat (hm_count hs) / of_nat (max 1 (cm_totalBlocks (m_content ms))) :: rat);
               sparse = (headingsPerContentBlock < 5 / 100 \<and> cm_totalBlocks (m_content ms) > 10);
               score0 = (10::rat)
                        - (if noH1 then 2 else 0)
                        - (if manyH1 then 1 else 0)
                        - (if deepStart then 1 else 0)
                        - (if noH2 then 1 else 0)
                        - (if invalid then of_nat (min 5 (skipCount * 2)) else 0)
                        - (if sparse then 1 else 0)
           in \<lparr>criterionId = Some ''CS-04'',
               score = max 0 score0,
               issues =
                 (if noH1
                  then [mkIssue ''warning'' ''Page lacks an H1 heading''
                          (Some ''Add a clear H1 heading that describes the page purpose'') None None]
                  else [])
                 @ (if manyH1
                    then [mkIssue ''warning''
                            (''Multiple H1 headings found ('' @ showNat (hm_h1Count hs) @ '')'')
                            (Some ''Use a single H1 for the page title and demote others to H2/H3'')
                            None None]
                    else [])
                 @ (if deepStart
                    then [mkIssue ''warning''
                            (''First heading starts at h'' @ showNat (the (hm_firstLevel hs)))
                            (Some ''Start with an H1 heading to establish page context'') None None]
                    else [])
                 @ (if noH2
                    then [mkIssue ''warning'' ''Missing H2 headings before deeper sections''
                            (Some ''Add H2 headings to group sections before using H3/H4'') None None]
                    else [])
                 @ (if invalid then map hierarchyIssue (h_issues (hm_hierarchyValid hs)) else [])
                 @ (if sparse
                    then [mkIssue ''info'' ''Content could benefit from more section headings''
                            (Some ''Add subheadings to break up long sections'') None None]
                    else [])\<rparr>)"

text \<open>\<open>ContentStructureRules.scoreLinkIntegrity(metrics)\<close>, criterion CS-07.\<close>

definition brokenLinkIssue :: "broken_link \<Rightarrow> issue" where
  "brokenLinkIssue link =
     mkIssue ''info'' ''Broken anchor link''
       (Some ''Add the anchor target or update the link'') (Some (bl_href link)) None"

definition scoreLinkIntegrity :: "metrics \<Rightarrow> criterion_result" where
  "scoreLinkIntegrity ms =
     (let ks = m_links ms
      in if km_total ks = 0 then \<lparr>criterionId = Some ''CS-07'', score = 10, issues = []\<rparr>
         else
           let brokenRatio = (of_nat (km_brokenCount ks) / of_nat (km_total ks) :: rat);
               score0 = (of_int (Math_round ((1 - brokenRatio) * 10)) :: rat)
           in \<lparr>criterionId = Some ''CS-07'',
               score = max 0 (min 10 score0),
               issues =
                 (if km_brokenCount ks > 0
                  then mkIssue (if brokenRatio > 2 / 10 then ''warning'' else ''info'')
                         (showNat (km_brokenCount ks) @ '' broken internal anchors detected'')
                         (Some ''Update or remove broken anchors and ensure targets exist'') None None
                       # map brokenLinkIssue (take 5 (km_brokenLinks ks))
                  else [])\<rparr>)"

text \<open>
  The category score of a rule module: the weighted mean of its criteria, each weight
  \<open>configWeights[id]?.weight || default\<close>, rounded to one decimal; and its issues, all
  criteria's issues sorted by severity.
\<close>

definition weightedCategoryScore :: "(rat \<times> criterion_result) list \<Rightarrow> rat" where
  "weightedCategoryScore wcs =
     (let weightedSum = foldl (\<lambda>acc (w, c). acc + score c * w) 0 wcs;
          totalWeight = foldl (\<lambda>acc (w, c). acc + w) 0 wcs
      in round1 (weightedSum / totalWeight))"

definition sortedIssues :: "(string \<times> criterion_result) list \<Rightarrow> issue list" where
  "sortedIssues criteria = sort_key sevRank (concat (map (\<lambda>(k, c). issues c) criteria))"

record rule_results =
  rr_categoryScore :: rat
  rr_criteria :: "(string \<times> criterion_result) list"
  rr_allIssues :: "issue list"

definition ruleResults :: "scoring_config \<Rightarrow> string \<Rightarrow> (string \<times> rat \<times> criterion_result) list \<Rightarrow> rule_results" where
  "ruleResults cfg cat entries =
     \<lparr>rr_categoryScore =
        weightedCategoryScore (map (\<lambda>(k, d, c). (orElse (cfg_weight cfg cat k) d, c)) entries),
      rr_criteria = map (\<lambda>(k, d, c). (k, c)) entries,
      rr_allIssues = sortedIssues (map (\<lambda>(k, d, c). (k, c)) entries)\<rparr>"

definition ContentStructureRules_scoreAll :: "scoring_config \<Rightarrow> metrics \<Rightarrow> rule_results" where
  "ContentStructureRules_scoreAll cfg ms =
     ruleResults cfg ''content-structure''
       [(''CS-01'', 35 / 100, scoreParagraphBrevity cfg ms),
        (''CS-02'', 30 / 100, scoreListUsage cfg ms),
        (''CS-04'', 35 / 100, scoreHeadingHierarchy ms),
        (''CS-07'', 10 / 100, scoreLinkIntegrity ms)]"

section \<open>Text-over-visuals rules\<close>

text \<open>
  \<open>TextOverVisualsRules.scoreTextFirst(metrics, content)\<close>, criterion TB-01. The test
  \<open>/^(step|click|select|go to|navigate|open)/i\<close> asks whether an item starts with one of
  the words, whatever the case.
\<close>

definition startsProcedural :: "string \<Rightarrow> bool" where
  "startsProcedural item =
     list_ex (startsWith (toLowerCase item))
       [''step'', ''click'', ''select'', ''go to'', ''navigate'', ''open'']"

definition hasProceduralContent :: "normalized_content \<Rightarrow> bool" where
  "hasProceduralContent content =
     list_ex (\<lambda>l. cl_type l = ''ol'' \<or> list_ex startsProcedural (cl_items l)) (nc_lists content)"

definition scoreTextFirst :: "metrics \<Rightarrow> normalized_content \<Rightarrow> criterion_result" where
  "scoreTextFirst ms content =
     (let imgs = m_images ms
      in if im_count imgs = 0 then \<lparr>criterionId = Some ''TB-01'', score = 10, issues = []\<rparr>
         else
           let imageDensity = im_imageToTextRatio imgs;
               score0 = (if imageDensity > 2 then 4 else if imageDensity > 1 then 6
                         else if imageDensity > 1 / 2 then 8 else (10::rat));
               issues0 =
                 (if imageDensity > 2
                  then [mkIssue ''critical'' ''Content is heavily image-dependent''
                          (Some ''Add text descriptions for key steps shown in images. AI assistants cannot interpret screenshots.'')
                          None None]
                  else if imageDensity > 1
                  then [mkIssue ''warning'' ''Content relies significantly on images''
                          (Some ''Ensure each image has accompanying text that describes the action or concept'')
                          None None]
                  else if imageDensity > 1 / 2
                  then [mkIssue ''info'' ''Good text-to-image balance, minor improvements possible''
                          (Some ''Consider adding brief text summaries for complex diagrams'')
                          None None]
                  else []);
               many = (hasProceduralContent content \<and> im_count imgs > 5)
           in \<lparr>criterionId = Some ''TB-01'',
               score = (if many then min score0 7 else score0),
               issues = issues0
                 @ (if many
                    then [mkIssue ''warning'' ''Procedural content with many screenshots''
                            (Some ''Ensure step text is complete without needing to reference images'')
                            None None]
                    else [])\<rparr>)"

text \<open>\<open>TextOverVisualsRules.scoreImageRatio(metrics)\<close>, criterion TB-02.\<close>

definition scoreImageRatio :: "metrics \<Rightarrow> criterion_result" where
  "scoreImageRatio ms =
     (let ratio = cm_visualToContentRatio (m_content ms);
          idealMax = (33 / 100 :: rat)
      in if cm_totalBlocks (m_content ms) = 0
         then \<lparr>criterionId = Some ''TB-02'', score = 5,
               issues = [mkIssue ''info'' ''Unable to assess - no content blocks found''
                           None None None]\<rparr>
         else
           \<lparr>criterionId = Some ''TB-02'',
            score =
              (if ratio \<le> idealMax then 8 + of_int (Math_round ((1 - ratio / idealMax) * 2))
               else if ratio \<le> 1 / 2
               then 5 + of_int (Math_round ((1 / 2 - ratio) / (17 / 100) * 2))
               else max 0 (of_int (Math_round ((1 - ratio) * 8)))),
            issues =
              (if ratio > idealMax
               then [mkIssue (if ratio > 1 / 2 then ''critical'' else ''warning'')
                       (''Visual content ratio ('' @ showNat (nat (Math_round (ratio * 100)))
                          @ ''%) exceeds ideal ('' @ showNat (nat (Math_round (idealMax * 100)))
                          @ ''%)'')
                       (Some ''Add more text-based explanations to balance the visual content'')
                       None None]
               else [])\<rparr>)"

text \<open>
  \<open>TextOverVisualsRules.scoreAltTextCoverage(metrics)\<close>, criterion TB-03. The location
  of an image is \<open>img.src.split('/').pop().substring(0, 50)\<close>.
\<close>

fun lastSegment :: "string \<Rightarrow> string \<Rightarrow> string" where
  "lastSegment acc [] = acc"
| "lastSegment acc (c # cs) = (if c = CHR ''/'' then lastSegment [] cs else lastSegment (acc @ [c]) cs)"

definition missingAltIssue :: "missing_alt \<Rightarrow> issue" where
  "missingAltIssue img =
     mkIssue ''info'' (''Image '' @ showNat (ma_index img + 1) @ '' missing alt text'')
       (Some ''Add alt attribute describing the image content'')
       (Some (take 50 (lastSegment [] (ma_src img)))) None"

definition scoreAltTextCoverage :: "metrics \<Rightarrow> criterion_result" where
  "scoreAltTextCoverage ms =
     (let imgs = m_images ms
      in if im_count imgs = 0 then \<lparr>criterionId = Some ''TB-03'', score = 10, issues = []\<rparr>
         else
           let coverage = im_altTextCoverage imgs
           in \<lparr>criterionId = Some ''TB-03'',
               score = of_int (Math_round (coverage * 10)),
               issues =
                 (if im_withoutAlt imgs > 0
                  then mkIssue (if coverage < 1 / 2 then ''critical''
                                else if coverage < 8 / 10 then ''warning'' else ''info'')
                         (showNat (im_withoutAlt imgs) @ '' of '' @ showNat (im_count imgs)
                            @ '' images missing alt text'')
                         (Some ''Add descriptive alt text to all images explaining what they show'')
                         None None
                       # (if length (im_missingAlt imgs) \<le> 5
                          then map missingAltIssue (im_missingAlt imgs) else [])
                  else [])\<rparr>)"

definition TextOverVisualsRules_scoreAll ::
    "scoring_config \<Rightarrow> metrics \<Rightarrow> normalized_content \<Rightarrow> rule_results" where
  "TextOverVisualsRules_scoreAll cfg ms content =
     ruleResults cfg ''text-over-visuals''
       [(''TB-01'', 35 / 100, scoreTextFirst ms content),
        (''TB-02'', 35 / 100, scoreImageRatio ms),
        (''TB-03'', 30 / 100, scoreAltTextCoverage ms)]"

section \<open>Terminology rules\<close>

text \<open>
  The number of matches of \<open>new RegExp('\\b' + term + '\\b', 'gi')\<close> in a lower-cased
  text, for a term of word characters: the positions where the term starts after a
  non-word character (or the start) and ends before one (or the end). Two such matches
  cannot overlap, so counting positions is counting matches.
\<close>

definition isWordChar :: "char \<Rightarrow> bool" where
  "isWordChar c =
     (let n = (of_char c :: nat)
      in (48 \<le> n \<and> n \<le> 57) \<or> (65 \<le> n \<and> n \<le> 90) \<or> n = 95 \<or> (97 \<le> n \<and> n \<le> 122))"

definition boundaryAfter :: "string \<Rightarrow> bool" where
  "boundaryAfter rest = (case rest of [] \<Rightarrow> True | c # cs \<Rightarrow> \<not> isWordChar c)"

fun countFrom :: "string \<Rightarrow> bool \<Rightarrow> string \<Rightarrow> nat" where
  "countFrom term prevWord [] = 0"
| "countFrom term prevWord (c # cs) =
     (if \<not> prevWord \<and> startsWith (c # cs) term \<and> boundaryAfter (drop (length term) (c # cs))
      then 1 else 0)
     + countFrom term (isWordChar c) cs"

definition countMatches :: "string \<Rightarrow> string \<Rightarrow> nat" where
  "countMatches term txt = countFrom term False txt"

text \<open>\<open>TerminologyRules.detectConfusableTerms(content)\<close>, criterion AV-02.\<close>

definition highRiskPairs :: "(string list \<times> string) list" where
  "highRiskPairs =
     [([''delete'', ''remove''], ''data operations''),
      ([''deactivate'', ''disable''], ''state changes''),
      ([''uninstall'', ''remove''], ''application management'')]"

definition pairCounts :: "string \<Rightarrow> string list \<Rightarrow> (string \<times> nat) list" where
  "pairCounts txt terms =
     filter (\<lambda>(term, n). n > 0) (map (\<lambda>term. (term, countMatches term txt)) terms)"

definition confusableIssue :: "string list \<Rightarrow> string \<Rightarrow> (string \<times> nat) list \<Rightarrow> issue" where
  "confusableIssue terms context counts =
     mkIssue ''warning''
       (''Potentially confusable terms in '' @ context @ '': ''
          @ join '' and '' (map (\<lambda>(term, n). quoted term) counts))
       (Some (''Ensure '' @ quoted (terms ! 0) @ '' and '' @ quoted (terms ! 1)
          @ '' have clearly distinct meanings or standardize on one term''))
       None None"


definition detectConfusableTerms :: "normalized_content \<Rightarrow> criterion_result" where
  "detectConfusableTerms content =
     (let txt = toLowerCase (nc_fullText content);
          found = concat (map (\<lambda>(terms, context).
                     let counts = pairCounts txt terms
                     in if length counts > 1 then [confusableIssue terms context counts] else [])
                   highRiskPairs)
      in \<lparr>criterionId = Some ''AV-02'',
          score = max 0 (10 - of_nat (length found) * 2),
          issues = found\<rparr>)"

text \<open>
  \<open>TerminologyRules.scoreAll(content)\<close>. The criterion AV-01
  (\<open>scoreTermConsistency\<close>, a pure function of the content) is not embedded: its result
  enters as the function \<open>av01\<close>, and every property below holds whatever it returns.
\<close>

definition TerminologyRules_scoreAll ::
    "scoring_config \<Rightarrow> (normalized_content \<Rightarrow> criterion_result) \<Rightarrow> normalized_content \<Rightarrow> rule_results" where
  "TerminologyRules_scoreAll cfg av01 content =
     ruleResults cfg ''terminology''
       [(''AV-01'', 6 / 10, av01 content),
        (''AV-02'', 4 / 10, detectConfusableTerms content)]"

section \<open>The semantic adapter (\<open>js/claude-client.js\<close>)\<close>

text \<open>
  The parsed response of the external model: scores by criterion id, each with a
  numeric score, an explanation, issue strings and fix strings.
\<close>

record claude_score =
  cl_score :: rat
  cl_issues :: "string list"
  cl_fixes :: "string list"

record claude_response =
  cr_scores :: "(string \<times> claude_score) list"
  cr_summary :: string
  cr_topIssues :: "string list"

record transformed_scores =
  ts_scores :: "(string \<times> criterion_result) list"
  ts_summary :: string
  ts_topIssues :: "string list"

text \<open>\<open>ClaudeClient.transformScores(claudeScores)\<close>: the score is copied as it comes.\<close>

definition fixAt :: "string list \<Rightarrow> nat \<Rightarrow> string" where
  "fixAt fixes i =
     (if i < length fixes \<and> fixes ! i \<noteq> [] then fixes ! i else ''Review and improve this area'')"

definition transformOne :: "string \<Rightarrow> claude_score \<Rightarrow> criterion_result" where
  "transformOne cid d =
     \<lparr>criterionId = Some cid,
      score = cl_score d,
      issues = map (\<lambda>(i, txt).
                 mkIssue (if cl_score d < 4 then ''critical''
                          else if cl_score d < 7 then ''warning'' else ''info'')
                   txt (Some (fixAt (cl_fixes d) i)) None None)
               (zip [0 ..< length (cl_issues d)] (cl_issues d))\<rparr>"

definition transformScores :: "claude_response \<Rightarrow> transformed_scores" where
  "transformScores claudeScores =
     \<lparr>ts_scores = foldl (\<lambda>transformed (cid, d). assign transformed cid (transformOne cid d))
                    [] (cr_scores claudeScores),
      ts_summary = cr_summary claudeScores,
      ts_topIssues = cr_topIssues claudeScores\<rparr>"

section \<open>The scorer (\<open>js/scorer.js\<close>)\<close>

text \<open>
  The report under construction. \<open>status\<close> is \<open>None\<close> until it is computed;
  \<open>claudeCache\<close>, \<open>claudeError\<close>, \<open>claudeSummary\<close> and \<open>claudeTopIssues\<close> are \<open>None\<close>
  while missing. The \<open>summary\<close> sentence, text printed from the fields below, is not
  modelled.
\<close>

record cache_info =
  cc_status :: string
  cc_key :: string
  cc_savedAt :: "string option"

record report_meta =
  url :: string
  title :: string
  scoredAt :: string
  mode :: string
  claudeCache :: "cache_info option"
  claudeError :: "string option"

record report =
  meta :: report_meta
  categories :: "(string \<times> category_result) list"
  compositeScore :: rat
  status :: "string option"
  allIssues :: "issue list"
  topIssues :: "issue list"
  sections :: "section_score list"
  claudeSummary :: "string option"
  claudeTopIssues :: "string list option"

text \<open>An update of the object stored under a key the scorer has written before.\<close>

fun modify :: "('k \<times> 'v) list \<Rightarrow> 'k \<Rightarrow> ('v \<Rightarrow> 'v) \<Rightarrow> ('k \<times> 'v) list" where
  "modify [] k f = []"
| "modify ((k', v) # kvs) k f = (if k' = k then (k', f v) # kvs else (k', v) # modify kvs k f)"

text \<open>
  \<open>Scorer.addClaudeScores(results, transformedScores, rawClaudeResults)\<close>. A category of
  the semantic path collects the criteria of its ids that the response holds; its
  score is their plain average.
\<close>

definition pick :: "(string \<times> criterion_result) list \<Rightarrow> string list \<Rightarrow> (string \<times> criterion_result) list" where
  "pick scores ids =
     concat (map (\<lambda>i. case map_of scores i of None \<Rightarrow> [] | Some c \<Rightarrow> [(i, c)]) ids)"

definition claudeCategory ::
    "string \<Rightarrow> string \<Rightarrow> string \<Rightarrow> string list \<Rightarrow> (string \<times> criterion_result) list \<Rightarrow> category_result" where
  "claudeCategory cid name key ids scores =
     (let crit = pick scores ids
      in \<lparr>cat_id = cid, cat_name = name,
          cat_score = Some (averageScores crit),
          cat_weight = weightOf key,
          cat_criteria = crit,
          cat_issues = concat (map (\<lambda>(i, c). issues c) crit),
          estimated = False, cat_message = None, sectionScores = [], sectionRollup = None\<rparr>)"

definition mergeIntoStructure :: "string \<Rightarrow> (string \<times> criterion_result) list \<Rightarrow>
    (string \<times> category_result) list \<Rightarrow> (string \<times> category_result) list" where
  "mergeIntoStructure i scores cats =
     (case map_of scores i of
        None \<Rightarrow> cats
      | Some c \<Rightarrow>
          modify cats ''content-structure''
            (\<lambda>cat. cat\<lparr>cat_criteria := assign (cat_criteria cat) i c,
                        cat_issues := cat_issues cat @ issues c\<rparr>))"

definition mergeConflation :: "(string \<times> criterion_result) list \<Rightarrow>
    (string \<times> category_result) list \<Rightarrow> (string \<times> category_result) list" where
  "mergeConflation scores cats =
     (case map_of scores ''AV-02'' of
        None \<Rightarrow> cats
      | Some c \<Rightarrow>
          modify cats ''terminology''
            (\<lambda>cat. case map_of (cat_criteria cat) ''AV-02'' of
                      None \<Rightarrow> cat
                    | Some existing \<Rightarrow>
                        cat\<lparr>cat_criteria :=
                          assign (cat_criteria cat) ''AV-02''
                            (existing\<lparr>score := of_int (Math_round ((score existing + score c) / 2)),
                                       issues := issues existing @ issues c\<rparr>)\<rparr>))"

definition addClaudeScores :: "report \<Rightarrow> transformed_scores \<Rightarrow> claude_response \<Rightarrow> report" where
  "addClaudeScores results transformedScores rawClaudeResults =
     (let scores = ts_scores transformedScores;
          cats1 = assign (categories results) ''outcomes-reversibility''
                    (claudeCategory ''CAT-03'' ''Outcomes & Reversibility'' ''outcomes-reversibility''
                       [''OR-01'', ''OR-02'', ''OR-03'', ''OR-04''] scores);
          cats2 = assign cats1 ''self-contained''
                    (claudeCategory ''CAT-09'' ''Self-Contained Context'' ''self-contained''
                       [''GAP-03'', ''GAP-04''] scores);
          cats3 = assign cats2 ''permissions-plans''
                    (claudeCategory ''CAT-04'' ''Permissions & Plans'' ''permissions-plans''
                       [''PP-01'', ''PP-02'', ''PP-03'', ''PP-04''] scores);
          cats4 = mergeIntoStructure ''CS-03'' scores cats3;
          cats5 = mergeIntoStructure ''CS-05'' scores cats4;
          cats6 = mergeConflation scores cats5;
          cats7 = modify cats6 ''content-structure''
                    (\<lambda>cat. cat\<lparr>cat_score := Some (averageScores (cat_criteria cat))\<rparr>)
      in results\<lparr>categories := cats7,
                  claudeSummary := Some (cr_summary rawClaudeResults),
                  claudeTopIssues := Some (cr_topIssues rawClaudeResults)\<rparr>)"

text \<open>
  \<open>Scorer.addEstimatedScores(results, content, metrics)\<close>: the Estimator. The three
  scores start at 6 and move by keyword and structure checks; each is clamped to
  \<open>[0, 10]\<close>; each category is marked \<open>estimated\<close>. The criterion objects of the
  Estimator have no \<open>criterionId\<close>.
\<close>

definition hasAny :: "string \<Rightarrow> string list \<Rightarrow> bool" where
  "hasAny txt terms = list_ex (\<lambda>term. str_includes txt term) terms"

definition clamp10 :: "rat \<Rightarrow> rat" where
  "clamp10 x = max 0 (min 10 x)"

definition estimatedCategory ::
    "string \<Rightarrow> string \<Rightarrow> string \<Rightarrow> string \<Rightarrow> rat \<Rightarrow> issue list \<Rightarrow> category_result" where
  "estimatedCategory cid name key est s found =
     \<lparr>cat_id = cid, cat_name = name, cat_score = Some s, cat_weight = weightOf key,
      cat_criteria = [(est, \<lparr>criterionId = None, score = s, issues = found\<rparr>)],
      cat_issues = found, estimated = True,
      cat_message = Some ''Estimated using heuristic checks (no Claude)'',
      sectionScores = [], sectionRollup = None\<rparr>"

definition estimateOutcomes :: "string \<Rightarrow> rat \<times> issue list" where
  "estimateOutcomes txt =
     (let destructiveTerms = [''delete'', ''remove'', ''erase'', ''discard'', ''wipe'', ''purge''];
          warningTerms = [''cannot be undone'', ''irreversible'', ''permanent'', ''warning'', ''caution''];
          outcomeTerms = [''will'', ''results in'', ''creates'', ''updates'', ''changes'', ''affects''];
          unwarned = (hasAny txt destructiveTerms \<and> \<not> hasAny txt warningTerms);
          s1 = (if unwarned then 6 - 2 else 6);
          s2 = (if hasAny txt outcomeTerms then s1 + 1 else s1)
      in (clamp10 s2,
          if unwarned
          then [mkIssue ''warning'' ''Destructive actions detected without reversibility warning''
                  (Some ''Add a warning if actions are irreversible or destructive'') None None]
          else []))"

definition estimatePermissions :: "string \<Rightarrow> rat \<times> issue list" where
  "estimatePermissions txt =
     (let permissionTerms = [''admin'', ''permission'', ''role'', ''access'', ''privilege''];
          planTerms = [''plan'', ''edition'', ''subscription'', ''upgrade''];
          s1 = (if hasAny txt permissionTerms then 6 + 1 else 6);
          s2 = (if hasAny txt planTerms then s1 + 1 else s1);
          neither = (\<not> hasAny txt permissionTerms \<and> \<not> hasAny txt planTerms);
          s3 = (if neither then s2 - 1 else s2)
      in (clamp10 s3,
          if neither
          then [mkIssue ''info'' ''No explicit permissions or plan requirements detected''
                  (Some ''Call out required roles, permissions, or plan editions if applicable'')
                  None None]
          else []))"

definition estimateContext :: "metrics \<Rightarrow> rat \<times> issue list" where
  "estimateContext ms =
     (let external = (km_external (m_links ms) > km_internal (m_links ms));
          short = (cm_wordCount (m_content ms) < 200);
          bare = (hm_count (m_headings ms) = 0);
          s = (6::rat) - (if external then 1 else 0) - (if short then 1 else 0)
              - (if bare then 1 else 0)
      in (clamp10 s,
          (if external
           then [mkIssue ''info'' ''Relies heavily on external links for context''
                   (Some ''Ensure critical context is included in the page'') None None]
           else [])
          @ (if short
             then [mkIssue ''info'' ''Low word count may indicate insufficient context''
                     (Some ''Add more context so the page can stand alone'') None None]
             else [])
          @ (if bare
             then [mkIssue ''warning'' ''No headings detected to anchor context''
                     (Some ''Add headings to clarify context and structure'') None None]
             else [])))"

definition addEstimatedScores :: "report \<Rightarrow> normalized_content \<Rightarrow> metrics \<Rightarrow> report" where
  "addEstimatedScores results content ms =
     (let txt = toLowerCase (nc_fullText content);
          cats1 = assign (categories results) ''outcomes-reversibility''
                    (estimatedCategory ''CAT-03'' ''Outcomes & Reversibility''
                       ''outcomes-reversibility'' ''EST-OR''
                       (fst (estimateOutcomes txt)) (snd (estimateOutcomes txt)));
          cats2 = assign cats1 ''permissions-plans''
                    (estimatedCategory ''CAT-04'' ''Permissions & Plans''
                       ''permissions-plans'' ''EST-PP''
                       (fst (estimatePermissions txt)) (snd (estimatePermissions txt)));
          cats3 = assign cats2 ''self-contained''
                    (estimatedCategory ''CAT-09'' ''Self-Contained Context''
                       ''self-contained'' ''EST-SC''
                       (fst (estimateContext ms)) (snd (estimateContext ms)))
      in results\<lparr>categories := cats3\<rparr>)"

text \<open>
  \<open>Scorer.addSectionScores(results, content)\<close>: when the content has sections, each is
  scored by CS-01 and CS-02 on metrics built for it (long paragraphs are again those
  of more than 150 words), and the rollup is blended into the content-structure score.
  The fields the section metrics leave out are written as the values the two criteria
  read them as.
\<close>

definition indexed :: "'a list \<Rightarrow> (nat \<times> 'a) list" where
  "indexed xs = zip [0 ..< length xs] xs"

definition buildSectionMetrics :: "content_section \<Rightarrow> metrics" where
  "buildSectionMetrics section =
     (let ps = cs_paragraphs section;
          paragraphLengths = map p_wordCount ps;
          longParagraphs = filter (\<lambda>p. p_wordCount p > 150) ps;
          avgParagraphLength =
            (if length paragraphLengths > 0
             then of_nat (foldl (+) 0 paragraphLengths) / of_nat (length paragraphLengths)
             else (0::rat));
          totalListItems = foldl (\<lambda>acc l. acc + cl_itemCount l) 0 (cs_lists section);
          listToParagraphRatio =
            (if length ps > 0 then of_nat (length (cs_lists section)) / of_nat (length ps)
             else (0::rat));
          imagesWithAlt = length (filter ci_hasAlt (cs_images section));
          altTextCoverage =
            (if length (cs_images section) > 0
             then of_nat imagesWithAlt / of_nat (length (cs_images section)) else (1::rat));
          totalContentBlocks =
            length ps + length (cs_lists section) + cs_tables section + cs_codeBlocks section;
          visualBlocks = length (cs_images section) + cs_tables section;
          visualToContentRatio =
            (if totalContentBlocks > 0 then of_nat visualBlocks / of_nat totalContentBlocks
             else (0::rat))
      in \<lparr>m_paragraphs =
            \<lparr>pm_count = length ps,
             pm_avgLength = Math_round avgParagraphLength,
             pm_maxLength = (if length paragraphLengths > 0 then foldl max 0 paragraphLengths else 0),
             pm_longCount = length longParagraphs,
             pm_longParagraphs =
               map (\<lambda>(i, p). \<lparr>lp_text = substring100 (p_text p), lp_wordCount = p_wordCount p,
                                lp_index = i\<rparr>) (indexed longParagraphs),
             pm_sentences =
               Some \<lparr>sm_total = 0, sm_avgLength = 0, sm_longCount = 0, sm_complexCount = 0,
                     sm_longSamples = []\<rparr>\<rparr>,
          m_headings =
            \<lparr>hm_count = (if cs_title section \<noteq> [] then 1 else 0),
             hm_hasH1 = (cs_level section = 1),
             hm_hasH2 = False, hm_h1Count = 0, hm_firstLevel = None,
             hm_hierarchyValid = \<lparr>valid = True, h_issues = []\<rparr>,
             hm_levels = (if cs_level section \<noteq> 0 then [cs_level section] else [])\<rparr>,
          m_lists =
            \<lparr>lm_count = length (cs_lists section),
             lm_totalItems = totalListItems,
             lm_listToParagraphRatio = round2 listToParagraphRatio,
             lm_orderedCount = None, lm_proceduralCount = None, lm_descriptiveCount = None\<rparr>,
          m_images =
            \<lparr>im_count = length (cs_images section),
             im_withAlt = imagesWithAlt,
             im_withoutAlt = length (cs_images section) - imagesWithAlt,
             im_altTextCoverage = round2 altTextCoverage,
             im_imageToTextRatio =
               (if cs_wordCount section > 0
                then round2 (of_nat (length (cs_images section))
                             / (of_nat (cs_wordCount section) / 100))
                else 0),
             im_missingAlt = []\<rparr>,
          m_content =
            \<lparr>cm_totalBlocks = totalContentBlocks,
             cm_visualBlocks = visualBlocks,
             cm_visualToContentRatio = round2 visualToContentRatio,
             cm_wordCount = cs_wordCount section,
             cm_codeBlocks = cs_codeBlocks section,
             cm_tables = cs_tables section\<rparr>,
          m_links =
            \<lparr>km_total = 0, km_internal = 0, km_external = 0, km_brokenCount = 0,
             km_brokenLinks = []\<rparr>\<rparr>)"

definition scoreSection :: "scoring_config \<Rightarrow> content_section \<Rightarrow> section_score" where
  "scoreSection cfg section =
     (let sectionMetrics = buildSectionMetrics section;
          brevity = scoreParagraphBrevity cfg sectionMetrics;
          listUsage = scoreListUsage cfg sectionMetrics
      in \<lparr>sec_title = cs_title section,
          sec_level = cs_level section,
          sec_score = round1 ((score brevity + score listUsage) / 2),
          sec_criteria = [(''CS-01'', brevity), (''CS-02'', listUsage)],
          sec_issues = issues brevity @ issues listUsage,
          sec_wordCount = cs_wordCount section\<rparr>)"

definition numberOr0 :: "rat option \<Rightarrow> rat" where
  "numberOr0 x = (case x of None \<Rightarrow> 0 | Some v \<Rightarrow> v)"

definition addSectionScores :: "scoring_config \<Rightarrow> report \<Rightarrow> normalized_content \<Rightarrow> report" where
  "addSectionScores cfg results content =
     (if length (nc_sections content) = 0 then results
      else
        let scored = map (scoreSection cfg) (nc_sections content);
            rollupScore = round1 (foldl (\<lambda>acc s. acc + sec_score s) 0 scored
                                  / of_nat (length scored))
        in results\<lparr>categories :=
                      modify (categories results) ''content-structure''
                        (\<lambda>cat. cat\<lparr>sectionScores := scored,
                                    sectionRollup := Some rollupScore,
                                    cat_score :=
                                      Some (round1 ((numberOr0 (cat_score cat) + rollupScore) / 2))\<rparr>),
                    sections := scored\<rparr>)"

text \<open>
  What one run of \<open>scoreAll\<close> observes outside its arguments: the clock, the cache key
  (\<open>hashText\<close> of the text for analysis), the entry \<open>Storage.getClaudeCacheEntry\<close>
  returns for it, and how the call \<open>ClaudeClient.scoreSemanticCriteria\<close> settles, with
  \<open>Inl\<close> the message of the error it throws.
\<close>

record cache_entry =
  ce_raw :: claude_response
  ce_transformed :: transformed_scores
  ce_savedAt :: "string option"

record environment =
  env_now :: string
  env_cacheKey :: string
  env_cached :: "cache_entry option"
  env_claude :: "string + claude_response"

text \<open>
  The body of the \<open>try\<close> block up to \<open>addClaudeScores\<close>: on a cache hit the stored
  results; on a miss the call, which may throw, then \<open>transformScores\<close> and the entry
  handed to \<open>Storage.saveClaudeCacheEntry\<close>.
\<close>

record semantic_results =
  sr_raw :: claude_response
  sr_transformed :: transformed_scores
  sr_cache :: cache_info
  sr_saved :: "(string \<times> claude_response \<times> transformed_scores) option"

definition semanticStep :: "environment \<Rightarrow> string + semantic_results" where
  "semanticStep env =
     (case env_cached env of
        Some cached \<Rightarrow>
          Inr \<lparr>sr_raw = ce_raw cached, sr_transformed = ce_transformed cached,
               sr_cache = \<lparr>cc_status = ''hit'', cc_key = env_cacheKey env,
                           cc_savedAt = ce_savedAt cached\<rparr>,
               sr_saved = None\<rparr>
      | None \<Rightarrow>
          (case env_claude env of
             Inl msg \<Rightarrow> Inl msg
           | Inr claudeResults \<Rightarrow>
               Inr \<lparr>sr_raw = claudeResults, sr_transformed = transformScores claudeResults,
                    sr_cache = \<lparr>cc_status = ''miss'', cc_key = env_cacheKey env,
                                cc_savedAt = None\<rparr>,
                    sr_saved = Some (env_cacheKey env, claudeResults,
                                     transformScores claudeResults)\<rparr>))"

definition ruleCategory :: "string \<Rightarrow> string \<Rightarrow> string \<Rightarrow> rule_results \<Rightarrow> category_result" where
  "ruleCategory cid name key r =
     \<lparr>cat_id = cid, cat_name = name, cat_score = Some (rr_categoryScore r),
      cat_weight = weightOf key, cat_criteria = rr_criteria r, cat_issues = rr_allIssues r,
      estimated = False, cat_message = None, sectionScores = [], sectionRollup = None\<rparr>"

definition truthy :: "string option \<Rightarrow> bool" where
  "truthy apiKey = (case apiKey of None \<Rightarrow> False | Some k \<Rightarrow> k \<noteq> [])"

text \<open>The report after step 1, the three rule modules.\<close>

definition ruleStep ::
    "scoring_config \<Rightarrow> (normalized_content \<Rightarrow> criterion_result) \<Rightarrow> environment \<Rightarrow>
     normalized_content \<Rightarrow> metrics \<Rightarrow> string option \<Rightarrow> report" where
  "ruleStep cfg av01 env content ms apiKey =
     \<lparr>meta = \<lparr>url = nc_url content, title = nc_title content, scoredAt = env_now env,
               mode = (if truthy apiKey then ''full'' else ''rule-only''),
               claudeCache = None, claudeError = None\<rparr>,
      categories =
        [(''content-structure'',
          ruleCategory ''CAT-01'' ''Content Structure'' ''content-structure''
            (ContentStructureRules_scoreAll cfg ms)),
         (''terminology'',
          ruleCategory ''CAT-02'' ''Consistent Terminology'' ''terminology''
            (TerminologyRules_scoreAll cfg av01 content)),
         (''text-over-visuals'',
          ruleCategory ''CAT-08'' ''Text Over Visuals'' ''text-over-visuals''
            (TextOverVisualsRules_scoreAll cfg ms content))],
      compositeScore = 0, status = None, allIssues = [], topIssues = [], sections = [],
      claudeSummary = None, claudeTopIssues = None\<rparr>"

text \<open>
  Step 2: with a key, the semantic path inside \<open>try\<close>, and in \<open>catch\<close> the Estimator
  and the error's message; without a key, the Estimator. The second component is what
  the run hands to the cache.
\<close>

definition semanticOrEstimate ::
    "environment \<Rightarrow> normalized_content \<Rightarrow> metrics \<Rightarrow> string option \<Rightarrow> report \<Rightarrow>
     report \<times> (string \<times> claude_response \<times> transformed_scores) option" where
  "semanticOrEstimate env content ms apiKey results =
     (if truthy apiKey
      then (case semanticStep env of
              Inr sr \<Rightarrow>
                (addClaudeScores
                   (results\<lparr>meta := (meta results)\<lparr>claudeCache := Some (sr_cache sr)\<rparr>\<rparr>)
                   (sr_transformed sr) (sr_raw sr),
                 sr_saved sr)
            | Inl msg \<Rightarrow>
                (let r = addEstimatedScores results content ms
                 in r\<lparr>meta := (meta r)\<lparr>claudeError := Some msg\<rparr>\<rparr>,
                 None))
      else (addEstimatedScores results content ms, None))"

text \<open>Steps 4 and 5: the composite, the status and the issues.\<close>

definition finish :: "report \<Rightarrow> report" where
  "finish results =
     (let composite = calculateCompositeScore (categories results);
          collected = collectAllIssues (categories results)
      in results\<lparr>compositeScore := composite,
                  status := Some (getStatus composite),
                  allIssues := collected,
                  topIssues := getTopIssues collected 5\<rparr>)"

text \<open>
  \<open>Scorer.scoreAll(content, metrics, apiKey)\<close>, with the configuration, AV-01 and the
  environment as parameters. It returns the report and what it saved to the cache.
\<close>

definition scoreAll ::
    "scoring_config \<Rightarrow> (normalized_content \<Rightarrow> criterion_result) \<Rightarrow> environment \<Rightarrow>
     normalized_content \<Rightarrow> metrics \<Rightarrow> string option \<Rightarrow>
     report \<times> (string \<times> claude_response \<times> transformed_scores) option" where
  "scoreAll cfg av01 env content ms apiKey =
     (case semanticOrEstimate env content ms apiKey (ruleStep cfg av01 env content ms apiKey) of
        (results, saved) \<Rightarrow> (finish (addSectionScores cfg results content), saved))"

section \<open>Example inputs\<close>

text \<open>
  A page with no structure at all, a page that is only text, a perfect AV-01, and an
  environment with an empty cache whose semantic call throws.
\<close>

definition emptyMetrics :: metrics where
  "emptyMetrics =
     \<lparr>m_paragraphs = \<lparr>pm_count = 0, pm_avgLength = 0, pm_maxLength = 0, pm_longCount = 0,
                       pm_longParagraphs = [], pm_sentences = None\<rparr>,
      m_headings = \<lparr>hm_count = 0, hm_hasH1 = False, hm_hasH2 = False, hm_h1Count = 0,
                     hm_firstLevel = None, hm_hierarchyValid = \<lparr>valid = True, h_issues = []\<rparr>,
                     hm_levels = []\<rparr>,
      m_lists = \<lparr>lm_count = 0, lm_totalItems = 0, lm_listToParagraphRatio = 0,
                  lm_orderedCount = Some 0, lm_proceduralCount = Some 0,
                  lm_descriptiveCount = Some 0\<rparr>,
      m_images = \<lparr>im_count = 0, im_withAlt = 0, im_withoutAlt = 0, im_altTextCoverage = 1,
                   im_imageToTextRatio = 0, im_missingAlt = []\<rparr>,
      m_content = \<lparr>cm_totalBlocks = 0, cm_visualBlocks = 0, cm_visualToContentRatio = 0,
                    cm_wordCount = 0, cm_codeBlocks = 0, cm_tables = 0\<rparr>,
      m_links = \<lparr>km_total = 0, km_internal = 0, km_external = 0, km_brokenCount = 0,
                  km_brokenLinks = []\<rparr>\<rparr>"

definition plainContent :: "string \<Rightarrow> normalized_content" where
  "plainContent txt =
     \<lparr>nc_url = ''https://help.zoho.com/page'', nc_title = ''Page'', nc_paragraphs = [],
      nc_lists = [], nc_fullText = txt, nc_sections = []\<rparr>"

definition perfectAV01 :: "normalized_content \<Rightarrow> criterion_result" where
  "perfectAV01 content = \<lparr>criterionId = Some ''AV-01'', score = 10, issues = []\<rparr>"

definition failingEnv :: environment where
  "failingEnv =
     \<lparr>env_now = ''2026-02-05T00:00:00.000Z'', env_cacheKey = ''811c9dc5'', env_cached = None,
      env_claude = Inl ''Rate limit exceeded. Please wait and try again.''\<rparr>"

text \<open>
  A page of paragraphs with nothing else (its metrics are those of the empty page but for
  the paragraphs), a paragraph of a given length, and the page of the long-paragraph
  scenario: one paragraph of 210 words and nine of 20.
\<close>

definition pageMetrics :: "content_paragraph list \<Rightarrow> metrics" where
  "pageMetrics ps = emptyMetrics\<lparr>m_paragraphs := computeMetrics_paragraphs ps\<rparr>"

definition words :: "nat \<Rightarrow> nat \<Rightarrow> content_paragraph" where
  "words n i = \<lparr>p_text = ''Lorem ipsum'', p_wordCount = n, p_index = i\<rparr>"

definition longParagraphPage :: "content_paragraph list" where
  "longParagraphPage = words 210 0 # map (\<lambda>i. words 20 i) [1 ..< 10]"




definition overshootEnv :: environment where
  "overshootEnv =
     failingEnv\<lparr>env_claude :=
       Inr \<lparr>cr_scores = [(''OR-01'', \<lparr>cl_score = 85, cl_issues = [], cl_fixes = []\<rparr>)],
            cr_summary = ''Excellent'', cr_topIssues = []\<rparr>\<rparr>"

section \<open>The score range\<close>

text \<open>
  A score in the closed interval from 0 to 10; metrics as the parser computes them,
  with a non-negative visual ratio and an alt-text coverage between 0 and 1; a
  configuration without negative weights; criteria, categories and a response of the
  external model whose scores are all in range.
\<close>

definition inRange :: "rat \<Rightarrow> bool" where
  "inRange x = (0 \<le> x \<and> x \<le> 10)"

definition ratiosInRange :: "metrics \<Rightarrow> bool" where
  "ratiosInRange ms =
     (0 \<le> cm_visualToContentRatio (m_content ms)
      \<and> 0 \<le> im_altTextCoverage (m_images ms) \<and> im_altTextCoverage (m_images ms) \<le> 1)"

definition weightsNonNegative :: "scoring_config \<Rightarrow> bool" where
  "weightsNonNegative cfg = (\<forall>cat k. case cfg_weight cfg cat k of None \<Rightarrow> True | Some w \<Rightarrow> 0 \<le> w)"

definition criteriaInRange :: "(string \<times> criterion_result) list \<Rightarrow> bool" where
  "criteriaInRange cs = list_all (\<lambda>(k, c). inRange (score c)) cs"

definition categoryInRange :: "category_result \<Rightarrow> bool" where
  "categoryInRange c =
     ((case cat_score c of None \<Rightarrow> True | Some s \<Rightarrow> inRange s)
      \<and> (case cat_weight c of None \<Rightarrow> True | Some w \<Rightarrow> 0 \<le> w)
      \<and> criteriaInRange (cat_criteria c))"

definition categoriesInRange :: "(string \<times> category_result) list \<Rightarrow> bool" where
  "categoriesInRange cats = list_all (\<lambda>(k, c). categoryInRange c) cats"

definition responseInRange :: "claude_response \<Rightarrow> bool" where
  "responseInRange resp = list_all (\<lambda>(k, d). inRange (cl_score d)) (cr_scores resp)"

section \<open>Properties of the heading hierarchy\<close>

lemma hierarchyLoop_acc:
  "hierarchyLoop i p ls (acc @ later) = acc @ hierarchyLoop i p ls later"
  by (induction ls arbitrary: i p later) auto

lemma hierarchyLoop_Nil_acc:
  "hierarchyLoop i p ls acc = acc @ hierarchyLoop i p ls []"
  using hierarchyLoop_acc [of i p ls acc "[]"] by simp

lemma filter_upt_shift:
  "filter P [Suc a ..< Suc b] = map Suc (filter (\<lambda>j. P (Suc j)) [a ..< b])"
proof -
  have "[Suc a ..< Suc b] = map Suc [a ..< b]"
    by (simp add: map_Suc_upt)
  then show ?thesis
    by (simp add: filter_map comp_def)
qed

lemma forwardSkips_Cons2:
  "forwardSkips (p # c # rest) =
     (if c > p + 1 then [1] else []) @ map Suc (forwardSkips (c # rest))"
proof -
  have upt: "[1 ..< length (p # c # rest)] = 1 # map Suc [1 ..< length (c # rest)]"
  proof -
    have "[1 ..< Suc (Suc (length rest))] = 1 # [Suc 1 ..< Suc (Suc (length rest))]"
      by (rule upt_conv_Cons) simp
    moreover have "[Suc 1 ..< Suc (Suc (length rest))] = map Suc [1 ..< Suc (length rest)]"
      by (rule map_Suc_upt [symmetric])
    ultimately show ?thesis by simp
  qed
  have cong: "filter ((\<lambda>i. (p # c # rest) ! i > (p # c # rest) ! (i - 1) + 1) \<circ> Suc)
                [1 ..< length (c # rest)]
            = filter (\<lambda>i. (c # rest) ! i > (c # rest) ! (i - 1) + 1) [1 ..< length (c # rest)]"
  proof (rule filter_cong [OF refl])
    fix j assume "j \<in> set [1 ..< length (c # rest)]"
    then have "0 < j" by auto
    then obtain k where "j = Suc k" by (cases j) auto
    then show "((\<lambda>i. (p # c # rest) ! i > (p # c # rest) ! (i - 1) + 1) \<circ> Suc) j
             = ((c # rest) ! j > (c # rest) ! (j - 1) + 1)"
      by simp
  qed
  show ?thesis
    unfolding forwardSkips_def upt
    by (simp only: filter.simps filter_map cong) simp
qed

text \<open>
  The loop started at index \<open>i\<close> after a heading of level \<open>p > 0\<close> reports the skips
  of the list \<open>p # ls\<close>, shifted to the running index.
\<close>

lemma hierarchyLoop_skips:
  assumes "p \<noteq> 0" and "\<forall>l\<in>set ls. l \<noteq> 0"
  shows "hierarchyLoop i p ls [] =
         map (\<lambda>j. skipped ((p # ls) ! (j - 1)) ((p # ls) ! j) (i + j - 1)) (forwardSkips (p # ls))"
  using assms
proof (induction ls arbitrary: i p)
  case Nil
  then show ?case by (simp add: forwardSkips_def)
next
  case (Cons c rest)
  have c0: "c \<noteq> 0" and r0: "\<forall>l\<in>set rest. l \<noteq> 0"
    using Cons.prems by auto
  have IH: "hierarchyLoop (i + 1) c rest [] =
      map (\<lambda>j. skipped ((c # rest) ! (j - 1)) ((c # rest) ! j) (i + 1 + j - 1))
          (forwardSkips (c # rest))"
    using Cons.IH [OF c0 r0] .
  have mapped: "map (\<lambda>j. skipped ((p # c # rest) ! (j - 1)) ((p # c # rest) ! j) (i + j - 1))
                  (map Suc (forwardSkips (c # rest)))
              = map (\<lambda>j. skipped ((c # rest) ! (j - 1)) ((c # rest) ! j) (i + 1 + j - 1))
                  (forwardSkips (c # rest))"
  proof -
    have "\<And>j. j \<in> set (forwardSkips (c # rest)) \<Longrightarrow>
            skipped ((p # c # rest) ! (Suc j - 1)) ((p # c # rest) ! Suc j) (i + Suc j - 1)
          = skipped ((c # rest) ! (j - 1)) ((c # rest) ! j) (i + 1 + j - 1)"
    proof -
      fix j assume "j \<in> set (forwardSkips (c # rest))"
      then have "0 < j" by (auto simp: forwardSkips_def)
      then obtain k where "j = Suc k" by (cases j) auto
      then show "skipped ((p # c # rest) ! (Suc j - 1)) ((p # c # rest) ! Suc j) (i + Suc j - 1)
          = skipped ((c # rest) ! (j - 1)) ((c # rest) ! j) (i + 1 + j - 1)"
        by simp
    qed
    then show ?thesis by (simp add: comp_def)
  qed
  show ?case
  proof (cases "c > p + 1")
    case True
    have "hierarchyLoop i p (c # rest) [] = hierarchyLoop (i + 1) c rest [skipped p c i]"
      using True Cons.prems(1) by simp
    also have "\<dots> = [skipped p c i] @ hierarchyLoop (i + 1) c rest []"
      by (rule hierarchyLoop_Nil_acc)
    finally have "hierarchyLoop i p (c # rest) [] =
        skipped p c i # hierarchyLoop (i + 1) c rest []"
      by simp
    then show ?thesis
      unfolding forwardSkips_Cons2 IH using True mapped by simp
  next
    case False
    have "hierarchyLoop i p (c # rest) [] = hierarchyLoop (i + 1) c rest []"
      using False by simp
    then show ?thesis
      unfolding forwardSkips_Cons2 IH using False mapped by simp
  qed
qed

lemma validate_issues:
  assumes "\<forall>l\<in>set levels. 1 \<le> l"
  shows "h_issues (validateHeadingHierarchy levels) =
         map (\<lambda>i. skipped (levels ! (i - 1)) (levels ! i) i) (forwardSkips levels)"
proof (cases levels)
  case Nil
  then show ?thesis by (simp add: validateHeadingHierarchy_def forwardSkips_def)
next
  case (Cons p ls)
  have p0: "p \<noteq> 0" and l0: "\<forall>l\<in>set ls. l \<noteq> 0"
    using assms Cons by auto
  have first: "hierarchyLoop 0 0 (p # ls) [] = hierarchyLoop 1 p ls []"
    by simp
  have pos: "\<forall>j\<in>set (forwardSkips (p # ls)). 0 < j"
    by (auto simp: forwardSkips_def)
  have "hierarchyLoop 1 p ls [] =
        map (\<lambda>j. skipped ((p # ls) ! (j - 1)) ((p # ls) ! j) (1 + j - 1)) (forwardSkips (p # ls))"
    by (rule hierarchyLoop_skips [OF p0 l0])
  also have "\<dots> = map (\<lambda>j. skipped ((p # ls) ! (j - 1)) ((p # ls) ! j) j) (forwardSkips (p # ls))"
    by simp
  finally show ?thesis
    using Cons first by (simp add: validateHeadingHierarchy_def Let_def)
qed

text \<open>
  Claim C6. For every list of heading levels (levels of real headings, so at least 1),
  the issues of the validation are, in document order, exactly the positions where the
  level rises by more than one over the heading just before; each such issue names the
  two levels; a flagged position is never a decrease; the result is valid iff there is
  no such position. Levels 1, 2, 4 give one issue, a skip from h2 to h4, and
  \<open>valid = false\<close>.
\<close>

theorem validateHeadingHierarchy_flags_forward_skips:
  assumes "\<forall>l\<in>set levels. 1 \<le> l"
  shows "map hi_index (h_issues (validateHeadingHierarchy levels)) = forwardSkips levels
       \<and> h_issues (validateHeadingHierarchy levels) =
           map (\<lambda>i. skipped (levels ! (i - 1)) (levels ! i) i) (forwardSkips levels)
       \<and> (\<forall>i\<in>set (map hi_index (h_issues (validateHeadingHierarchy levels))).
             0 < i \<and> i < length levels \<and> levels ! (i - 1) < levels ! i)
       \<and> (valid (validateHeadingHierarchy levels) \<longleftrightarrow>
             \<not> (\<exists>i. 0 < i \<and> i < length levels \<and> levels ! i > levels ! (i - 1) + 1))
       \<and> validateHeadingHierarchy [1, 2, 4] =
           \<lparr>valid = False,
            h_issues = [\<lparr>hi_type = ''skipped'',
                         hi_message = ''Heading level skipped from h2 to h4'',
                         hi_index = 2\<rparr>]\<rparr>"
proof -
  let ?r = "validateHeadingHierarchy levels"
  have iss: "h_issues ?r = map (\<lambda>i. skipped (levels ! (i - 1)) (levels ! i) i) (forwardSkips levels)"
    by (rule validate_issues [OF assms])
  have idx: "map hi_index (h_issues ?r) = forwardSkips levels"
    unfolding iss by (simp add: comp_def skipped_def)
  have mem: "\<forall>i\<in>set (map hi_index (h_issues ?r)).
               0 < i \<and> i < length levels \<and> levels ! (i - 1) < levels ! i"
    unfolding idx by (auto simp: forwardSkips_def)
  have v: "valid ?r = (h_issues ?r = [])"
    by (simp add: validateHeadingHierarchy_def Let_def)
  have "(forwardSkips levels = []) \<longleftrightarrow>
        \<not> (\<exists>i. 0 < i \<and> i < length levels \<and> levels ! i > levels ! (i - 1) + 1)"
    by (auto simp: forwardSkips_def filter_empty_conv)
  then have val: "valid ?r \<longleftrightarrow>
        \<not> (\<exists>i. 0 < i \<and> i < length levels \<and> levels ! i > levels ! (i - 1) + 1)"
    using v iss by simp
  have ex: "validateHeadingHierarchy [1, 2, 4] =
           \<lparr>valid = False,
            h_issues = [\<lparr>hi_type = ''skipped'',
                         hi_message = ''Heading level skipped from h2 to h4'',
                         hi_index = 2\<rparr>]\<rparr>"
    by (simp add: validateHeadingHierarchy_def skipped_def showNat.simps digitChar_def)
  show ?thesis
    using idx iss mem val ex by blast
qed

theorem validateHeadingHierarchy_flags_forward_skips_witness:
  "map hi_index (h_issues (validateHeadingHierarchy [1, 3, 2, 4, 1])) = [1, 3]
   \<and> \<not> valid (validateHeadingHierarchy [1, 3, 2, 4, 1])"
proof -
  have h: "\<forall>l\<in>set [1, 3, 2, 4, 1::nat]. 1 \<le> l"
    by simp
  have fs: "forwardSkips [1, 3, 2, 4, 1] = [1, 3]"
    by (simp add: forwardSkips_Cons2) (simp add: forwardSkips_def)
  have ex: "\<exists>i. 0 < i \<and> i < length [1, 3, 2, 4, 1::nat]
            \<and> [1, 3, 2, 4, 1::nat] ! i > [1, 3, 2, 4, 1] ! (i - 1) + 1"
    by (rule exI [of _ 1]) simp
  note t = validateHeadingHierarchy_flags_forward_skips [OF h]
  have a: "map hi_index (h_issues (validateHeadingHierarchy [1, 3, 2, 4, 1])) = [1, 3]"
    using t [THEN conjunct1] fs by simp
  have b: "\<not> valid (validateHeadingHierarchy [1, 3, 2, 4, 1])"
    using t [THEN conjunct2, THEN conjunct2, THEN conjunct2, THEN conjunct1] ex by blast
  show ?thesis using a b by simp
qed

section \<open>Properties of the composite score\<close>

lemma compositeStep_pair:
  "compositeStep (tw, ws) (k, c) =
     (if qualifies c then (tw + effectiveWeight k c, ws + the (cat_score c) * effectiveWeight k c)
      else (tw, ws))"
  by (simp add: compositeStep_def)

lemma foldl_compositeStep:
  "foldl compositeStep (tw, ws) cats =
     (tw + sum_list (map (\<lambda>(k, c). effectiveWeight k c) (filter (\<lambda>(k, c). qualifies c) cats)),
      ws + sum_list (map (\<lambda>(k, c). the (cat_score c) * effectiveWeight k c)
                      (filter (\<lambda>(k, c). qualifies c) cats)))"
proof (induction cats arbitrary: tw ws)
  case Nil
  then show ?case by simp
next
  case (Cons kc cats)
  obtain k c where kc: "kc = (k, c)" by (cases kc)
  show ?case
    unfolding kc by (simp add: compositeStep_pair Cons.IH add.assoc)
qed





section \<open>Properties of the issue list\<close>



lemma finish_fields:
  "categories (finish r) = categories r"
  "allIssues (finish r) = collectAllIssues (categories r)"
  "topIssues (finish r) = take 5 (collectAllIssues (categories r))"
  "compositeScore (finish r) = calculateCompositeScore (categories r)"
  "meta (finish r) = meta r"
  by (simp_all add: finish_def Let_def getTopIssues_def)




section \<open>Properties of paragraph brevity (CS-01)\<close>

lemma showNat_values:
  "showNat 0 = ''0''" "showNat (Suc 0) = ''1''" "showNat 1 = ''1''" "showNat 2 = ''2''"
  "showNat 3 = ''3''" "showNat 100 = ''100''" "showNat 150 = ''150''" "showNat 210 = ''210''"
  by (simp_all add: showNat.simps digitChar_def)

lemma longParagraphPage_metrics:
  "pm_count (m_paragraphs (pageMetrics longParagraphPage)) = 10"
  "pm_longParagraphs (m_paragraphs (pageMetrics longParagraphPage))
     = [\<lparr>lp_text = substring100 ''Lorem ipsum'', lp_wordCount = 210, lp_index = 0\<rparr>]"
  "pm_sentences (m_paragraphs (pageMetrics longParagraphPage)) = None"
  by code_simp+






text \<open>
  Claim C10. The CS-01 result does not depend on the configuration but for the text of
  the issue messages: for the same metrics, any two configurations give the same score,
  the same criterion id and the same issues once the messages are blanked, hence the
  same number of issues. The parser's paragraph metrics take no configuration at all.
\<close>

theorem scoreParagraphBrevity_ignores_threshold:
  "score (scoreParagraphBrevity cfg ms) = score (scoreParagraphBrevity cfg' ms)
   \<and> criterionId (scoreParagraphBrevity cfg ms) = criterionId (scoreParagraphBrevity cfg' ms)
   \<and> length (issues (scoreParagraphBrevity cfg ms)) = length (issues (scoreParagraphBrevity cfg' ms))
   \<and> map (\<lambda>a. a\<lparr>message := []\<rparr>) (issues (scoreParagraphBrevity cfg ms))
       = map (\<lambda>a. a\<lparr>message := []\<rparr>) (issues (scoreParagraphBrevity cfg' ms))
   \<and> score (scoreParagraphBrevity cfg (ms\<lparr>m_paragraphs := computeMetrics_paragraphs ps\<rparr>))
       = score (scoreParagraphBrevity cfg' (ms\<lparr>m_paragraphs := computeMetrics_paragraphs ps\<rparr>))"
proof -
  have blank: "\<And>t p. (longParagraphIssue t p)\<lparr>message := []\<rparr>
       = mkIssue (if lp_wordCount p > 200 then ''critical'' else ''warning'') []
           (Some ''Consider breaking this paragraph into bullet points or shorter sections'')
           (Some (''Paragraph '' @ showNat (lp_index p + 1)))
           (Some (lp_text p))"
    by (simp add: longParagraphIssue_def mkIssue_def)
  have s: "\<And>m. score (scoreParagraphBrevity cfg m) = score (scoreParagraphBrevity cfg' m)"
    by (simp add: scoreParagraphBrevity_def Let_def)
  have c: "criterionId (scoreParagraphBrevity cfg ms) = criterionId (scoreParagraphBrevity cfg' ms)"
    by (simp add: scoreParagraphBrevity_def Let_def)
  have l: "length (issues (scoreParagraphBrevity cfg ms))
         = length (issues (scoreParagraphBrevity cfg' ms))"
    by (simp add: scoreParagraphBrevity_def Let_def)
  have i: "map (\<lambda>a. a\<lparr>message := []\<rparr>) (issues (scoreParagraphBrevity cfg ms))
       = map (\<lambda>a. a\<lparr>message := []\<rparr>) (issues (scoreParagraphBrevity cfg' ms))"
    by (simp add: scoreParagraphBrevity_def Let_def comp_def blank)
  show ?thesis
    using s c l i by simp
qed

theorem scoreParagraphBrevity_ignores_threshold_witness:
  "score (scoreParagraphBrevity (noConfig\<lparr>cfg_threshold := Some 100\<rparr>)
            (pageMetrics longParagraphPage)) = 9
   \<and> score (scoreParagraphBrevity noConfig (pageMetrics longParagraphPage)) = 9
   \<and> map message (issues (scoreParagraphBrevity (noConfig\<lparr>cfg_threshold := Some 100\<rparr>)
            (pageMetrics longParagraphPage))) = [''Paragraph 1 has 210 words (threshold: 100)'']
   \<and> map message (issues (scoreParagraphBrevity noConfig (pageMetrics longParagraphPage)))
       = [''Paragraph 1 has 210 words (threshold: 150)'']"
proof -
  have a: "score (scoreParagraphBrevity noConfig (pageMetrics longParagraphPage)) = 9"
    by code_simp
  have b: "score (scoreParagraphBrevity (noConfig\<lparr>cfg_threshold := Some 100\<rparr>)
            (pageMetrics longParagraphPage)) = 9"
    using scoreParagraphBrevity_ignores_threshold
      [of "noConfig\<lparr>cfg_threshold := Some 100\<rparr>" "pageMetrics longParagraphPage" noConfig]
      a by simp
  have c: "map message (issues (scoreParagraphBrevity (noConfig\<lparr>cfg_threshold := Some 100\<rparr>)
            (pageMetrics longParagraphPage))) = [''Paragraph 1 has 210 words (threshold: 100)'']"
    by (simp add: scoreParagraphBrevity_def Let_def longParagraphPage_metrics sentenceIssues_def
        longParagraphIssue_def mkIssue_def noConfig_def orElse_def showNat_values)
  have d: "map message (issues (scoreParagraphBrevity noConfig (pageMetrics longParagraphPage)))
       = [''Paragraph 1 has 210 words (threshold: 150)'']"
    by (simp add: scoreParagraphBrevity_def Let_def longParagraphPage_metrics sentenceIssues_def
        longParagraphIssue_def mkIssue_def noConfig_def orElse_def showNat_values)
  show ?thesis using a b c d by simp
qed

section \<open>Properties of confusable-term detection (AV-02)\<close>






section \<open>Properties of the scoring run\<close>

lemma ruleStep_fields:
  "categories (ruleStep cfg av01 env content ms apiKey) =
     [(''content-structure'',
       ruleCategory ''CAT-01'' ''Content Structure'' ''content-structure''
         (ContentStructureRules_scoreAll cfg ms)),
      (''terminology'',
       ruleCategory ''CAT-02'' ''Consistent Terminology'' ''terminology''
         (TerminologyRules_scoreAll cfg av01 content)),
      (''text-over-visuals'',
       ruleCategory ''CAT-08'' ''Text Over Visuals'' ''text-over-visuals''
         (TextOverVisualsRules_scoreAll cfg ms content))]"
  "claudeError (meta (ruleStep cfg av01 env content ms apiKey)) = None"
  by (simp_all add: ruleStep_def)

lemma ruleCategory_fields:
  "estimated (ruleCategory cid name key r) = False"
  "cat_score (ruleCategory cid name key r) = Some (rr_categoryScore r)"
  "cat_weight (ruleCategory cid name key r) = weightOf key"
  by (simp_all add: ruleCategory_def)

lemma weightOf_values:
  "weightOf ''content-structure'' = Some (30 / 100)"
  "weightOf ''outcomes-reversibility'' = Some (25 / 100)"
  "weightOf ''terminology'' = Some (15 / 100)"
  "weightOf ''text-over-visuals'' = Some (10 / 100)"
  "weightOf ''self-contained'' = Some (5 / 100)"
  "weightOf ''permissions-plans'' = Some (15 / 100)"
  by (simp_all add: weightOf_def CATEGORY_WEIGHTS_def)

lemma estimatedCategory_fields:
  "estimated (estimatedCategory cid name key est s found) = True"
  "cat_score (estimatedCategory cid name key est s found) = Some s"
  "cat_issues (estimatedCategory cid name key est s found) = found"
  by (simp_all add: estimatedCategory_def)

text \<open>The Estimator appends its three categories after the three rule categories.\<close>

lemma addEstimatedScores_categories:
  assumes "categories results =
     [(''content-structure'', a), (''terminology'', b), (''text-over-visuals'', c)]"
  shows "categories (addEstimatedScores results content ms) =
     [(''content-structure'', a), (''terminology'', b), (''text-over-visuals'', c),
      (''outcomes-reversibility'',
       estimatedCategory ''CAT-03'' ''Outcomes & Reversibility'' ''outcomes-reversibility''
         ''EST-OR'' (fst (estimateOutcomes (toLowerCase (nc_fullText content))))
         (snd (estimateOutcomes (toLowerCase (nc_fullText content))))),
      (''permissions-plans'',
       estimatedCategory ''CAT-04'' ''Permissions & Plans'' ''permissions-plans''
         ''EST-PP'' (fst (estimatePermissions (toLowerCase (nc_fullText content))))
         (snd (estimatePermissions (toLowerCase (nc_fullText content))))),
      (''self-contained'',
       estimatedCategory ''CAT-09'' ''Self-Contained Context'' ''self-contained''
         ''EST-SC'' (fst (estimateContext ms)) (snd (estimateContext ms)))]"
  by (simp add: addEstimatedScores_def Let_def assms)

lemma addEstimatedScores_meta:
  "meta (addEstimatedScores results content ms) = meta results"
  by (simp add: addEstimatedScores_def Let_def)

text \<open>The section rollup touches the content-structure category only, and keeps it scored.\<close>

lemma addSectionScores_categories:
  assumes "categories results = (''content-structure'', a) # others"
  shows "\<exists>a'. categories (addSectionScores cfg results content) = (''content-structure'', a') # others
           \<and> estimated a' = estimated a \<and> cat_weight a' = cat_weight a
           \<and> (cat_score a \<noteq> None \<longrightarrow> cat_score a' \<noteq> None)"
  by (simp add: addSectionScores_def Let_def assms)

lemma addSectionScores_meta:
  "meta (addSectionScores cfg results content) = meta results"
  by (simp add: addSectionScores_def Let_def)

text \<open>The composite of three scored categories followed by three estimated ones.\<close>

lemma composite_three_scored:
  assumes "cat_score a = Some s1" "cat_score b = Some s2" "cat_score c = Some s3"
    and "\<not> estimated a" "\<not> estimated b" "\<not> estimated c"
    and "cat_weight a = Some (30 / 100)" "cat_weight b = Some (15 / 100)"
        "cat_weight c = Some (10 / 100)"
    and "estimated e1" "estimated e2" "estimated e3"
  shows "calculateCompositeScore
           [(''content-structure'', a), (''terminology'', b), (''text-over-visuals'', c),
            (''outcomes-reversibility'', e1), (''permissions-plans'', e2), (''self-contained'', e3)]
         = round1 ((s1 * (30 / 100) + s2 * (15 / 100) + s3 * (10 / 100)) / (55 / 100))"
  using assms
  by (simp add: calculateCompositeScore_def compositeStep_pair qualifies_def effectiveWeight_def)

lemma composite_ignores_estimated:
  assumes "estimated e1" "estimated e2" "estimated e3"
  shows "calculateCompositeScore (cats @ [(k1, e1), (k2, e2), (k3, e3)])
         = calculateCompositeScore cats"
  using assms
  by (simp add: calculateCompositeScore_def foldl_compositeStep compositeStep_pair qualifies_def)

text \<open>
  Claim C3. In every run with a key, an empty cache and a semantic call that throws,
  \<open>scoreAll\<close> returns a report (the model of \<open>scoreAll\<close> is total: the error is caught):
  its categories are the three rule categories, not estimated and scored, followed
  by outcomes-reversibility, permissions-plans and self-contained as the Estimator
  builds them, marked estimated; \<open>meta.claudeError\<close> is the message of the error; the
  composite is the weighted mean of the three rule categories alone, that is the
  composite of the category map without the estimated ones; nothing is saved to the
  cache.
\<close>

theorem scoreAll_semantic_failure_falls_back:
  fixes r :: report
  assumes key: "truthy apiKey" and miss: "env_cached env = None"
    and throws: "env_claude env = Inl msg"
    and r: "r = fst (scoreAll cfg av01 env content ms apiKey)"
  shows "\<exists>a b c s1 s2 s3.
     categories r =
       [(''content-structure'', a), (''terminology'', b), (''text-over-visuals'', c),
        (''outcomes-reversibility'',
         estimatedCategory ''CAT-03'' ''Outcomes & Reversibility'' ''outcomes-reversibility''
           ''EST-OR'' (fst (estimateOutcomes (toLowerCase (nc_fullText content))))
           (snd (estimateOutcomes (toLowerCase (nc_fullText content))))),
        (''permissions-plans'',
         estimatedCategory ''CAT-04'' ''Permissions & Plans'' ''permissions-plans''
           ''EST-PP'' (fst (estimatePermissions (toLowerCase (nc_fullText content))))
           (snd (estimatePermissions (toLowerCase (nc_fullText content))))),
        (''self-contained'',
         estimatedCategory ''CAT-09'' ''Self-Contained Context'' ''self-contained''
           ''EST-SC'' (fst (estimateContext ms)) (snd (estimateContext ms)))]
     \<and> \<not> estimated a \<and> \<not> estimated b \<and> \<not> estimated c
     \<and> cat_score a = Some s1 \<and> cat_score b = Some s2 \<and> cat_score c = Some s3
     \<and> list_all (\<lambda>(k, e). estimated e) (drop 3 (categories r))
     \<and> claudeError (meta r) = Some msg
     \<and> compositeScore r
         = round1 ((s1 * (30 / 100) + s2 * (15 / 100) + s3 * (10 / 100)) / (55 / 100))
     \<and> compositeScore r = calculateCompositeScore (take 3 (categories r))
     \<and> snd (scoreAll cfg av01 env content ms apiKey) = None"
proof -
  let ?r0 = "ruleStep cfg av01 env content ms apiKey"
  let ?est = "addEstimatedScores ?r0 content ms"
  let ?r1 = "?est\<lparr>meta := (meta ?est)\<lparr>claudeError := Some msg\<rparr>\<rparr>"
  have step: "semanticStep env = Inl msg"
    by (simp add: semanticStep_def miss throws)
  have soe: "semanticOrEstimate env content ms apiKey ?r0 = (?r1, None)"
    by (simp add: semanticOrEstimate_def key step Let_def)
  have rr: "r = finish (addSectionScores cfg ?r1 content)"
    and saved: "snd (scoreAll cfg av01 env content ms apiKey) = None"
    unfolding r by (simp_all add: scoreAll_def soe)
  let ?a0 = "ruleCategory ''CAT-01'' ''Content Structure'' ''content-structure''
         (ContentStructureRules_scoreAll cfg ms)"
  let ?b = "ruleCategory ''CAT-02'' ''Consistent Terminology'' ''terminology''
         (TerminologyRules_scoreAll cfg av01 content)"
  let ?c = "ruleCategory ''CAT-08'' ''Text Over Visuals'' ''text-over-visuals''
         (TextOverVisualsRules_scoreAll cfg ms content)"
  let ?e1 = "estimatedCategory ''CAT-03'' ''Outcomes & Reversibility'' ''outcomes-reversibility''
           ''EST-OR'' (fst (estimateOutcomes (toLowerCase (nc_fullText content))))
           (snd (estimateOutcomes (toLowerCase (nc_fullText content))))"
  let ?e2 = "estimatedCategory ''CAT-04'' ''Permissions & Plans'' ''permissions-plans''
           ''EST-PP'' (fst (estimatePermissions (toLowerCase (nc_fullText content))))
           (snd (estimatePermissions (toLowerCase (nc_fullText content))))"
  let ?e3 = "estimatedCategory ''CAT-09'' ''Self-Contained Context'' ''self-contained''
           ''EST-SC'' (fst (estimateContext ms)) (snd (estimateContext ms))"
  let ?tail = "[(''terminology'', ?b), (''text-over-visuals'', ?c),
        (''outcomes-reversibility'', ?e1), (''permissions-plans'', ?e2), (''self-contained'', ?e3)]"
  have cats1: "categories ?r1 = (''content-structure'', ?a0) # ?tail"
    using addEstimatedScores_categories [OF ruleStep_fields(1), of cfg av01 env content ms apiKey content ms]
    by simp
  obtain a where cats: "categories (addSectionScores cfg ?r1 content) = (''content-structure'', a) # ?tail"
    and ea: "estimated a = estimated ?a0" and wa: "cat_weight a = cat_weight ?a0"
    and sa: "cat_score ?a0 \<noteq> None \<longrightarrow> cat_score a \<noteq> None"
    using addSectionScores_categories [OF cats1, of cfg content] by blast
  obtain s1 where s1: "cat_score a = Some s1"
    using sa by (auto simp: ruleCategory_fields)
  have catsr: "categories r = (''content-structure'', a) # ?tail"
    unfolding rr by (simp add: finish_fields cats)
  have err: "claudeError (meta r) = Some msg"
    unfolding rr by (simp add: finish_fields addSectionScores_meta)
  have comp: "compositeScore r = calculateCompositeScore ((''content-structure'', a) # ?tail)"
    unfolding rr by (simp add: finish_fields cats)
  have c1: "compositeScore r
      = round1 ((s1 * (30 / 100) + rr_categoryScore (TerminologyRules_scoreAll cfg av01 content) * (15 / 100)
          + rr_categoryScore (TextOverVisualsRules_scoreAll cfg ms content) * (10 / 100)) / (55 / 100))"
    unfolding comp
    by (rule composite_three_scored)
       (simp_all add: s1 ea wa ruleCategory_fields estimatedCategory_fields weightOf_values)
  have c2: "compositeScore r = calculateCompositeScore (take 3 (categories r))"
    unfolding comp catsr
    using composite_ignores_estimated
      [of ?e1 ?e2 ?e3 "[(''content-structure'', a), (''terminology'', ?b), (''text-over-visuals'', ?c)]"
          "''outcomes-reversibility''" "''permissions-plans''" "''self-contained''"]
    by (simp add: estimatedCategory_fields)
  have est: "list_all (\<lambda>(k, e). estimated e) (drop 3 (categories r))"
    unfolding catsr by (simp add: estimatedCategory_fields)
  show ?thesis
    using catsr ea s1 c1 c2 est err saved
    by (intro exI [of _ a] exI [of _ ?b] exI [of _ ?c] exI [of _ s1]
        exI [of _ "rr_categoryScore (TerminologyRules_scoreAll cfg av01 content)"]
        exI [of _ "rr_categoryScore (TextOverVisualsRules_scoreAll cfg ms content)"])
       (simp add: ruleCategory_fields)
qed

theorem scoreAll_semantic_failure_falls_back_witness:
  "claudeError (meta (fst (scoreAll noConfig perfectAV01 failingEnv
       (plainContent ''Delete the user'') emptyMetrics (Some ''sk-key''))))
     = Some ''Rate limit exceeded. Please wait and try again.''
   \<and> compositeScore (fst (scoreAll noConfig perfectAV01 failingEnv
       (plainContent ''Delete the user'') emptyMetrics (Some ''sk-key''))) = 77 / 10
   \<and> map (\<lambda>(k, c). (k, cat_score c, estimated c))
        (categories (fst (scoreAll noConfig perfectAV01 failingEnv
           (plainContent ''Delete the user'') emptyMetrics (Some ''sk-key''))))
     = [(''content-structure'', Some (64 / 10), False), (''terminology'', Some 10, False),
        (''text-over-visuals'', Some (83 / 10), False),
        (''outcomes-reversibility'', Some 4, True), (''permissions-plans'', Some 5, True),
        (''self-contained'', Some 4, True)]"
proof -
  have k: "truthy (Some ''sk-key'')"
    by (simp add: truthy_def)
  have m: "env_cached failingEnv = None"
    by (simp add: failingEnv_def)
  have t: "env_claude failingEnv = Inl ''Rate limit exceeded. Please wait and try again.''"
    by (simp add: failingEnv_def)
  have a: "claudeError (meta (fst (scoreAll noConfig perfectAV01 failingEnv
       (plainContent ''Delete the user'') emptyMetrics (Some ''sk-key''))))
     = Some ''Rate limit exceeded. Please wait and try again.''"
    using scoreAll_semantic_failure_falls_back [OF k m t refl] by blast
  have b: "compositeScore (fst (scoreAll noConfig perfectAV01 failingEnv
       (plainContent ''Delete the user'') emptyMetrics (Some ''sk-key''))) = 77 / 10"
    by code_simp
  have c: "map (\<lambda>(k, c). (k, cat_score c, estimated c))
        (categories (fst (scoreAll noConfig perfectAV01 failingEnv
           (plainContent ''Delete the user'') emptyMetrics (Some ''sk-key''))))
     = [(''content-structure'', Some (64 / 10), False), (''terminology'', Some 10, False),
        (''text-over-visuals'', Some (83 / 10), False),
        (''outcomes-reversibility'', Some 4, True), (''permissions-plans'', Some 5, True),
        (''self-contained'', Some 4, True)]"
    by code_simp
  show ?thesis using a b c by simp
qed

section \<open>Determinism without a semantic capability\<close>

lemma addEstimatedScores_meta_update:
  "addEstimatedScores (results\<lparr>meta := m\<rparr>) content ms
     = (addEstimatedScores results content ms)\<lparr>meta := m\<rparr>"
  by (simp add: addEstimatedScores_def Let_def)

lemma addSectionScores_meta_update:
  "addSectionScores cfg (results\<lparr>meta := m\<rparr>) content
     = (addSectionScores cfg results content)\<lparr>meta := m\<rparr>"
  by (simp add: addSectionScores_def Let_def)

lemma finish_meta_update:
  "finish (results\<lparr>meta := m\<rparr>) = (finish results)\<lparr>meta := m\<rparr>"
  by (simp add: finish_def Let_def)

lemma ruleStep_env:
  "ruleStep cfg av01 env content ms apiKey
     = (ruleStep cfg av01 env' content ms apiKey)
         \<lparr>meta := (meta (ruleStep cfg av01 env' content ms apiKey))\<lparr>scoredAt := env_now env\<rparr>\<rparr>"
  by (simp add: ruleStep_def)

lemma scoreAll_without_key:
  assumes "\<not> truthy apiKey"
  shows "scoreAll cfg av01 env content ms apiKey
     = (finish (addSectionScores cfg
          (addEstimatedScores (ruleStep cfg av01 env content ms apiKey) content ms) content), None)"
  using assms by (simp add: scoreAll_def semanticOrEstimate_def)

text \<open>
  Claim C8. Without a key the report does not depend on what the run observes outside
  its arguments: for the same content, metrics and configuration (and the same AV-01,
  a function of the content), two runs in any two environments (clock, cache, network)
  return reports that are equal but for \<open>meta.scoredAt\<close>; in particular all category
  and criterion scores, the composite and the issues are identical; and the run leaves
  the cache as it was.
\<close>

theorem scoreAll_rule_only_deterministic:
  assumes "\<not> truthy apiKey"
  shows "fst (scoreAll cfg av01 env content ms apiKey)
       = (fst (scoreAll cfg av01 env' content ms apiKey))
           \<lparr>meta := (meta (fst (scoreAll cfg av01 env' content ms apiKey)))
                      \<lparr>scoredAt := env_now env\<rparr>\<rparr>
     \<and> categories (fst (scoreAll cfg av01 env content ms apiKey))
       = categories (fst (scoreAll cfg av01 env' content ms apiKey))
     \<and> compositeScore (fst (scoreAll cfg av01 env content ms apiKey))
       = compositeScore (fst (scoreAll cfg av01 env' content ms apiKey))
     \<and> allIssues (fst (scoreAll cfg av01 env content ms apiKey))
       = allIssues (fst (scoreAll cfg av01 env' content ms apiKey))
     \<and> snd (scoreAll cfg av01 env content ms apiKey) = None"
proof -
  let ?r = "fst (scoreAll cfg av01 env content ms apiKey)"
  let ?r' = "fst (scoreAll cfg av01 env' content ms apiKey)"
  let ?base = "ruleStep cfg av01 env' content ms apiKey"
  let ?m = "(meta ?base)\<lparr>scoredAt := env_now env\<rparr>"
  have r': "?r' = finish (addSectionScores cfg (addEstimatedScores ?base content ms) content)"
    by (simp add: scoreAll_without_key [OF assms])
  have "?r = finish (addSectionScores cfg
                (addEstimatedScores (?base\<lparr>meta := ?m\<rparr>) content ms) content)"
    using ruleStep_env [of cfg av01 env content ms apiKey env']
    by (simp add: scoreAll_without_key [OF assms])
  then have "?r = ?r'\<lparr>meta := ?m\<rparr>"
    unfolding r'
    by (simp only: addEstimatedScores_meta_update addSectionScores_meta_update finish_meta_update)
  moreover have "meta ?r' = meta ?base"
    unfolding r' by (simp add: finish_fields addSectionScores_meta addEstimatedScores_meta)
  ultimately have eq: "?r = ?r'\<lparr>meta := (meta ?r')\<lparr>scoredAt := env_now env\<rparr>\<rparr>"
    by simp
  have c: "categories ?r = categories ?r'"
    by (subst eq) simp
  have s: "compositeScore ?r = compositeScore ?r'"
    by (subst eq) simp
  have i: "allIssues ?r = allIssues ?r'"
    by (subst eq) simp
  have n: "snd (scoreAll cfg av01 env content ms apiKey) = None"
    by (simp add: scoreAll_without_key [OF assms])
  show ?thesis
    using eq c s i n by blast
qed

theorem scoreAll_rule_only_deterministic_witness:
  "categories (fst (scoreAll noConfig perfectAV01 failingEnv
       (plainContent ''Delete the user'') emptyMetrics None))
   = categories (fst (scoreAll noConfig perfectAV01
       (failingEnv\<lparr>env_now := ''2026-02-06T09:30:00.000Z'',
                    env_claude := Inr \<lparr>cr_scores = [], cr_summary = ''fine'', cr_topIssues = []\<rparr>\<rparr>)
       (plainContent ''Delete the user'') emptyMetrics None))
   \<and> compositeScore (fst (scoreAll noConfig perfectAV01 failingEnv
       (plainContent ''Delete the user'') emptyMetrics None)) = 77 / 10"
proof -
  have k: "\<not> truthy None"
    by (simp add: truthy_def)
  have c: "compositeScore (fst (scoreAll noConfig perfectAV01 failingEnv
       (plainContent ''Delete the user'') emptyMetrics None)) = 77 / 10"
    by code_simp
  show ?thesis
    using scoreAll_rule_only_deterministic [OF k, of noConfig perfectAV01 failingEnv
      "plainContent ''Delete the user''" emptyMetrics
      "failingEnv\<lparr>env_now := ''2026-02-06T09:30:00.000Z'',
                    env_claude := Inr \<lparr>cr_scores = [], cr_summary = ''fine'', cr_topIssues = []\<rparr>\<rparr>"] c
    by simp
qed

section \<open>The semantic path\<close>







lemma addClaudeScores_meta:
  "meta (addClaudeScores results t raw) = meta results"
  by (simp add: addClaudeScores_def Let_def)




text \<open>
  Claim C2 at a failing input. A response of the external model that gives OR-01 the
  score 85 goes through \<open>transformScores\<close> and \<open>averageScores\<close> as it is: the report
  holds the criterion score 85 and the category score 85, and its composite is 25.7,
  all outside \<open>[0, 10]\<close>.
\<close>

theorem scoreAll_semantic_score_not_clamped:
  "map (\<lambda>(k, c). (k, cat_score c, map (\<lambda>(i, cr). (i, score cr)) (cat_criteria c)))
      (categories (fst (scoreAll noConfig perfectAV01 overshootEnv
         (plainContent ''Delete the user'') emptyMetrics (Some ''sk-key''))))
     = [(''content-structure'', Some 7,
         [(''CS-01'', 10), (''CS-02'', 5), (''CS-04'', 3), (''CS-07'', 10)]),
        (''terminology'', Some 10, [(''AV-01'', 10), (''AV-02'', 10)]),
        (''text-over-visuals'', Some (83 / 10), [(''TB-01'', 10), (''TB-02'', 5), (''TB-03'', 10)]),
        (''outcomes-reversibility'', Some 85, [(''OR-01'', 85)]),
        (''self-contained'', Some 0, []), (''permissions-plans'', Some 0, [])]
   \<and> compositeScore (fst (scoreAll noConfig perfectAV01 overshootEnv
         (plainContent ''Delete the user'') emptyMetrics (Some ''sk-key''))) = 257 / 10
   \<and> score (transformOne ''OR-01'' \<lparr>cl_score = 85, cl_issues = [], cl_fixes = []\<rparr>) = 85"
  by code_simp

section \<open>Scores stay in range where the code clamps\<close>

lemma Math_round_le:
  assumes "x \<le> of_int n"
  shows "Math_round x \<le> n"
proof -
  have "\<lfloor>x + 1 / 2\<rfloor> \<le> \<lfloor>of_int n + (1 / 2 :: rat)\<rfloor>"
    by (rule floor_mono) (use assms in simp)
  moreover have "\<lfloor>of_int n + (1 / 2 :: rat)\<rfloor> = n"
    by (simp add: floor_eq_iff)
  ultimately show ?thesis by (simp add: Math_round_def)
qed

lemma Math_round_ge0:
  assumes "0 \<le> x"
  shows "0 \<le> Math_round x"
proof -
  have "\<lfloor>(0::rat)\<rfloor> \<le> \<lfloor>x + 1 / 2\<rfloor>"
    by (rule floor_mono) (use assms in simp)
  then show ?thesis by (simp add: Math_round_def)
qed

lemma rounded_le: "x \<le> of_int n \<Longrightarrow> (of_int (Math_round x) :: rat) \<le> of_int n"
  using Math_round_le [of x n] by simp

lemma rounded_ge0: "0 \<le> x \<Longrightarrow> (0::rat) \<le> of_int (Math_round x)"
  using Math_round_ge0 [of x] by simp

lemma round1_range: "inRange x \<Longrightarrow> inRange (round1 x)"
proof -
  assume "inRange x"
  then have "0 \<le> x * 10" "x * 10 \<le> of_int 100"
    by (simp_all add: inRange_def)
  from rounded_ge0 [OF this(1)] rounded_le [OF this(2)]
  show ?thesis by (simp add: round1_def inRange_def)
qed

lemma clamp10_range: "inRange (clamp10 x)"
  by (simp add: clamp10_def inRange_def)

lemma max0_range: "x \<le> 10 \<Longrightarrow> inRange (max 0 x)"
  by (simp add: inRange_def)

lemma scoreParagraphBrevity_range: "inRange (score (scoreParagraphBrevity cfg ms))"
  by (simp add: scoreParagraphBrevity_def Let_def inRange_def)

lemma scoreLinkIntegrity_range: "inRange (score (scoreLinkIntegrity ms))"
  by (simp add: scoreLinkIntegrity_def Let_def inRange_def)

lemma detectConfusableTerms_range: "inRange (score (detectConfusableTerms content))"
  by (simp add: detectConfusableTerms_def Let_def inRange_def)

lemma scoreTextFirst_range: "inRange (score (scoreTextFirst ms content))"
  by (simp add: scoreTextFirst_def Let_def inRange_def)
lemma scoreListUsage_range: "inRange (score (scoreListUsage cfg ms))"
  by (simp add: scoreListUsage_def Let_def inRange_def min_le_iff_disj)
lemma scoreHeadingHierarchy_range: "inRange (score (scoreHeadingHierarchy ms))"
proof (cases "hm_count (m_headings ms) = 0")
  case True
  then show ?thesis by (simp add: scoreHeadingHierarchy_def inRange_def)
next
  case False
  have nn: "\<And>c (k::rat). 0 \<le> k \<Longrightarrow> 0 \<le> (if c then k else 0)"
    by simp
  have "\<exists>a b c d e f. 0 \<le> a \<and> 0 \<le> b \<and> 0 \<le> c \<and> 0 \<le> d \<and> 0 \<le> e \<and> 0 \<le> f
          \<and> score (scoreHeadingHierarchy ms) = max 0 ((10::rat) - a - b - c - d - e - f)"
    using False
    apply (simp only: scoreHeadingHierarchy_def Let_def if_False)
    apply (simp only: criterion_result.simps)
    apply (intro exI conjI)
          prefer 7
          apply (rule refl)
         apply (rule nn, simp)+
    done
  then obtain a b c d e f :: rat where "0 \<le> a" "0 \<le> b" "0 \<le> c" "0 \<le> d" "0 \<le> e" "0 \<le> f"
    and s: "score (scoreHeadingHierarchy ms) = max 0 (10 - a - b - c - d - e - f)"
    by blast
  then show ?thesis
    unfolding s by (simp add: inRange_def)
qed
lemma scoreAltTextCoverage_range:
  assumes "ratiosInRange ms"
  shows "inRange (score (scoreAltTextCoverage ms))"
proof (cases "im_count (m_images ms) = 0")
  case True
  then show ?thesis by (simp add: scoreAltTextCoverage_def inRange_def)
next
  case False
  have c: "0 \<le> im_altTextCoverage (m_images ms) * 10"
    "im_altTextCoverage (m_images ms) * 10 \<le> of_int 10"
    using assms by (simp_all add: ratiosInRange_def)
  have "score (scoreAltTextCoverage ms) = of_int (Math_round (im_altTextCoverage (m_images ms) * 10))"
    using False by (simp add: scoreAltTextCoverage_def Let_def)
  then show ?thesis
    using rounded_ge0 [OF c(1)] rounded_le [OF c(2)] by (simp add: inRange_def)
qed

lemma scoreImageRatio_range:
  assumes "ratiosInRange ms"
  shows "inRange (score (scoreImageRatio ms))"
proof -
  let ?ratio = "cm_visualToContentRatio (m_content ms)"
  have r0: "0 \<le> ?ratio"
    using assms by (simp add: ratiosInRange_def)
  consider (none) "cm_totalBlocks (m_content ms) = 0"
    | (low) "cm_totalBlocks (m_content ms) \<noteq> 0" "?ratio \<le> 33 / 100"
    | (mid) "cm_totalBlocks (m_content ms) \<noteq> 0" "\<not> ?ratio \<le> 33 / 100" "?ratio \<le> 1 / 2"
    | (high) "cm_totalBlocks (m_content ms) \<noteq> 0" "\<not> ?ratio \<le> 33 / 100" "\<not> ?ratio \<le> 1 / 2"
    by blast
  then show ?thesis
  proof cases
    case none
    then show ?thesis by (simp add: scoreImageRatio_def inRange_def)
  next
    case low
    have s: "score (scoreImageRatio ms) = 8 + of_int (Math_round ((1 - ?ratio / (33 / 100)) * 2))"
      using low by (simp add: scoreImageRatio_def Let_def)
    have "0 \<le> (1 - ?ratio / (33 / 100)) * 2" "(1 - ?ratio / (33 / 100)) * 2 \<le> of_int 2"
      using low r0 by simp_all
    from rounded_ge0 [OF this(1)] rounded_le [OF this(2)]
    show ?thesis unfolding s by (simp add: inRange_def)
  next
    case mid
    have s: "score (scoreImageRatio ms)
        = 5 + of_int (Math_round ((1 / 2 - ?ratio) / (17 / 100) * 2))"
      using mid by (simp add: scoreImageRatio_def Let_def)
    have "0 \<le> (1 / 2 - ?ratio) / (17 / 100) * 2" "(1 / 2 - ?ratio) / (17 / 100) * 2 \<le> of_int 2"
      using mid by simp_all
    from rounded_ge0 [OF this(1)] rounded_le [OF this(2)]
    show ?thesis unfolding s by (simp add: inRange_def)
  next
    case high
    have s: "score (scoreImageRatio ms) = max 0 (of_int (Math_round ((1 - ?ratio) * 8)))"
      using high by (simp add: scoreImageRatio_def Let_def)
    have "(1 - ?ratio) * 8 \<le> of_int 4"
      using high by simp
    from rounded_le [OF this]
    show ?thesis unfolding s by (simp add: inRange_def)
  qed
qed

lemma foldl_add_sum: "foldl (+) (a::rat) xs = a + sum_list xs"
  by (induction xs arbitrary: a) (simp_all add: add.assoc)

lemma mean_range:
  assumes "xs \<noteq> []" "\<forall>x\<in>set xs. inRange x"
  shows "inRange (sum_list xs / of_nat (length xs))"
proof -
  have "0 \<le> sum_list xs \<and> sum_list xs \<le> 10 * of_nat (length xs)"
    using assms(2) by (induction xs) (auto simp: inRange_def algebra_simps)
  moreover have "(0::rat) < of_nat (length xs)"
    using assms(1) by simp
  ultimately show ?thesis
    by (simp add: inRange_def pos_le_divide_eq pos_divide_le_eq)
qed

lemma averageScores_range:
  assumes "criteriaInRange cs"
  shows "inRange (averageScores cs)"
proof (cases "cs = []")
  case True
  then show ?thesis by (simp add: averageScores_def inRange_def)
next
  case False
  let ?xs = "map (\<lambda>(k, c). score c) cs"
  have "?xs \<noteq> []" using False by simp
  moreover have "\<forall>x\<in>set ?xs. inRange x"
    using assms by (auto simp: criteriaInRange_def list_all_iff)
  ultimately have "inRange (sum_list ?xs / of_nat (length ?xs))"
    by (rule mean_range)
  then show ?thesis
    using False by (simp add: averageScores_def Let_def foldl_add_sum round1_range)
qed

lemma weighted_sums:
  "foldl (\<lambda>acc (w, c). acc + score c * w) a wcs = a + sum_list (map (\<lambda>(w, c). score c * w) wcs)"
  "foldl (\<lambda>acc (w, c). acc + w) b wcs = b + sum_list (map (\<lambda>(w, c). w) wcs)"
  for a b :: rat
  by (induction wcs arbitrary: a b) (auto simp: add.assoc)

lemma weightedCategoryScore_range:
  assumes "wcs \<noteq> []" "\<forall>(w, c)\<in>set wcs. 0 < w \<and> inRange (score c)"
  shows "inRange (weightedCategoryScore wcs)"
proof -
  let ?n = "sum_list (map (\<lambda>(w, c). score c * w) wcs)"
  let ?d = "sum_list (map (\<lambda>(w, c). w) wcs)"
  have b: "0 \<le> ?n \<and> ?n \<le> 10 * ?d \<and> (wcs \<noteq> [] \<longrightarrow> 0 < ?d)"
    using assms(2)
  proof (induction wcs)
    case Nil
    then show ?case by simp
  next
    case (Cons x xs)
    obtain w c where x: "x = (w, c)" by (cases x)
    have w: "0 < w" and s: "0 \<le> score c" "score c \<le> 10"
      using Cons.prems x by (auto simp: inRange_def)
    have IH: "0 \<le> sum_list (map (\<lambda>(w, c). score c * w) xs)"
      "sum_list (map (\<lambda>(w, c). score c * w) xs) \<le> 10 * sum_list (map (\<lambda>(w, c). w) xs)"
      "0 \<le> sum_list (map (\<lambda>(w, c). w) xs)"
      using Cons by (cases xs; force)+
    have p: "0 \<le> score c * w" "score c * w \<le> 10 * w"
      using w s by (simp_all add: mult_right_mono)
    have n: "sum_list (map (\<lambda>(w, c). score c * w) ((w, c) # xs))
        = score c * w + sum_list (map (\<lambda>(w, c). score c * w) xs)"
      and d: "sum_list (map (\<lambda>(w, c). w) ((w, c) # xs)) = w + sum_list (map (\<lambda>(w, c). w) xs)"
      by simp_all
    have u: "score c * w + sum_list (map (\<lambda>(w, c). score c * w) xs)
        \<le> 10 * (w + sum_list (map (\<lambda>(w, c). w) xs))"
      using p(2) IH(2) by (simp only: distrib_left add_mono)
    have l: "0 \<le> score c * w + sum_list (map (\<lambda>(w, c). score c * w) xs)"
      using p(1) IH(1) by (rule add_nonneg_nonneg)
    have q: "0 < w + sum_list (map (\<lambda>(w, c). w) xs)"
      using w IH(3) by (rule add_pos_nonneg)
    show ?case
      unfolding x n d using u l q by blast
  qed
  then have "inRange (?n / ?d)"
    using assms(1) by (simp add: inRange_def pos_le_divide_eq pos_divide_le_eq)
  then show ?thesis
    by (simp add: weightedCategoryScore_def Let_def weighted_sums round1_range)
qed

lemma orElse_positive:
  assumes "0 < d" "case x of None \<Rightarrow> True | Some w \<Rightarrow> (0::rat) \<le> w"
  shows "0 < orElse x d"
  using assms by (auto simp: orElse_def split: option.splits)

lemma ruleResults_range:
  assumes "weightsNonNegative cfg" "entries \<noteq> []"
    and "\<forall>(k, d, c)\<in>set entries. 0 < d \<and> inRange (score c)"
  shows "inRange (rr_categoryScore (ruleResults cfg cat entries))
       \<and> criteriaInRange (rr_criteria (ruleResults cfg cat entries))"
proof -
  have w: "\<And>k d. 0 < d \<Longrightarrow> 0 < orElse (cfg_weight cfg cat k) d"
    using assms(1) by (intro orElse_positive) (auto simp: weightsNonNegative_def)
  have "inRange (weightedCategoryScore
          (map (\<lambda>(k, d, c). (orElse (cfg_weight cfg cat k) d, c)) entries))"
    by (rule weightedCategoryScore_range) (use assms(2,3) w in auto)
  moreover have "criteriaInRange (map (\<lambda>(k, d, c). (k, c)) entries)"
    using assms(3) by (auto simp: criteriaInRange_def list_all_iff)
  ultimately show ?thesis
    by (simp add: ruleResults_def)
qed

lemma ContentStructureRules_range:
  assumes "weightsNonNegative cfg"
  shows "inRange (rr_categoryScore (ContentStructureRules_scoreAll cfg ms))
       \<and> criteriaInRange (rr_criteria (ContentStructureRules_scoreAll cfg ms))"
  unfolding ContentStructureRules_scoreAll_def
  by (rule ruleResults_range [OF assms])
     (simp_all add: scoreParagraphBrevity_range scoreListUsage_range
        scoreHeadingHierarchy_range scoreLinkIntegrity_range)

lemma TerminologyRules_range:
  assumes "weightsNonNegative cfg" "inRange (score (av01 content))"
  shows "inRange (rr_categoryScore (TerminologyRules_scoreAll cfg av01 content))
       \<and> criteriaInRange (rr_criteria (TerminologyRules_scoreAll cfg av01 content))"
  unfolding TerminologyRules_scoreAll_def
  by (rule ruleResults_range [OF assms(1)])
     (simp_all add: assms(2) detectConfusableTerms_range)

lemma TextOverVisualsRules_range:
  assumes "weightsNonNegative cfg" "ratiosInRange ms"
  shows "inRange (rr_categoryScore (TextOverVisualsRules_scoreAll cfg ms content))
       \<and> criteriaInRange (rr_criteria (TextOverVisualsRules_scoreAll cfg ms content))"
  unfolding TextOverVisualsRules_scoreAll_def
  by (rule ruleResults_range [OF assms(1)])
     (simp_all add: scoreTextFirst_range scoreImageRatio_range [OF assms(2)]
        scoreAltTextCoverage_range [OF assms(2)])

lemma modify_range:
  assumes "categoriesInRange cats" "\<And>c. categoryInRange c \<Longrightarrow> categoryInRange (f c)"
  shows "categoriesInRange (modify cats k f)"
  using assms by (induction cats) (auto simp: categoriesInRange_def)

lemma assign_range:
  assumes "categoriesInRange cats" "categoryInRange c"
  shows "categoriesInRange (assign cats k c)"
  using assms by (induction cats) (auto simp: categoriesInRange_def)

lemma assign_criteria:
  assumes "criteriaInRange cs" "inRange (score c)"
  shows "criteriaInRange (assign cs k c)"
  using assms by (induction cs) (auto simp: criteriaInRange_def)

lemma map_of_range:
  assumes "criteriaInRange cs" "map_of cs i = Some c"
  shows "inRange (score c)"
  using assms map_of_SomeD [of cs i c]
  by (auto simp: criteriaInRange_def list_all_iff)

lemma pick_range:
  assumes "criteriaInRange cs"
  shows "criteriaInRange (pick cs ids)"
proof -
  have "\<And>i c. map_of cs i = Some c \<Longrightarrow> inRange (score c)"
    using map_of_range [OF assms] .
  then show ?thesis
    by (induction ids) (auto simp: pick_def criteriaInRange_def split: option.splits)
qed

lemma weightOf_nonneg: "case weightOf key of None \<Rightarrow> True | Some w \<Rightarrow> 0 \<le> w"
proof (cases "weightOf key")
  case None
  then show ?thesis by simp
next
  case (Some w)
  then have "(key, w) \<in> set CATEGORY_WEIGHTS"
    unfolding weightOf_def by (rule map_of_SomeD)
  then have "0 \<le> w" by (auto simp: CATEGORY_WEIGHTS_def)
  with Some show ?thesis by simp
qed

lemma transformScores_range:
  assumes "responseInRange resp"
  shows "criteriaInRange (ts_scores (transformScores resp))"
proof -
  have "\<And>acc. criteriaInRange acc \<Longrightarrow> list_all (\<lambda>(k, d). inRange (cl_score d)) ds \<Longrightarrow>
          criteriaInRange (foldl (\<lambda>transformed (cid, d). assign transformed cid (transformOne cid d)) acc ds)"
    for ds
  proof (induction ds)
    case Nil
    then show ?case by simp
  next
    case (Cons a ds)
    obtain cid d where a: "a = (cid, d)" by (cases a)
    have "inRange (score (transformOne cid d))"
      using Cons.prems(2) a by (simp add: transformOne_def)
    then have "criteriaInRange (assign acc cid (transformOne cid d))"
      using Cons.prems(1) by (intro assign_criteria)
    then show ?case using Cons.IH Cons.prems(2) a by simp
  qed
  from this [of "[]" "cr_scores resp"] assms show ?thesis
    by (simp add: transformScores_def responseInRange_def criteriaInRange_def)
qed

lemma claudeCategory_range:
  assumes "criteriaInRange scores"
  shows "categoryInRange (claudeCategory cid name key ids scores)"
  using pick_range [OF assms, of ids] averageScores_range [of "pick scores ids"]
        weightOf_nonneg [of key]
  by (simp add: claudeCategory_def categoryInRange_def Let_def)

lemma estimatedCategory_range:
  assumes "inRange s"
  shows "categoryInRange (estimatedCategory cid name key est s found)"
  using assms weightOf_nonneg [of key]
  by (simp add: estimatedCategory_def categoryInRange_def criteriaInRange_def)

lemma ruleCategory_range:
  assumes "inRange (rr_categoryScore r) \<and> criteriaInRange (rr_criteria r)"
  shows "categoryInRange (ruleCategory cid name key r)"
  using assms weightOf_nonneg [of key]
  by (simp add: ruleCategory_def categoryInRange_def)

lemma ruleStep_range:
  assumes "weightsNonNegative cfg" "ratiosInRange ms" "inRange (score (av01 content))"
  shows "categoriesInRange (categories (ruleStep cfg av01 env content ms apiKey))"
proof -
  have "categoryInRange (ruleCategory cid name key (ContentStructureRules_scoreAll cfg ms))"
    for cid name key
    using ContentStructureRules_range [of cfg ms] assms(1) by (intro ruleCategory_range) simp
  moreover have "categoryInRange (ruleCategory cid name key (TerminologyRules_scoreAll cfg av01 content))"
    for cid name key
    using TerminologyRules_range [of cfg av01 content] assms(1,3)
    by (intro ruleCategory_range) simp
  moreover have "categoryInRange (ruleCategory cid name key (TextOverVisualsRules_scoreAll cfg ms content))"
    for cid name key
    using TextOverVisualsRules_range [of cfg ms content] assms(1,2)
    by (intro ruleCategory_range) simp
  ultimately show ?thesis
    by (simp add: ruleStep_def categoriesInRange_def)
qed

lemma addEstimatedScores_range:
  assumes "categoriesInRange (categories r)"
  shows "categoriesInRange (categories (addEstimatedScores r content ms))"
proof -
  have e: "inRange (fst (estimateOutcomes s))" "inRange (fst (estimatePermissions s))"
          "inRange (fst (estimateContext ms))" for s
    by (simp_all add: estimateOutcomes_def estimatePermissions_def estimateContext_def
                      Let_def clamp10_range)
  show ?thesis
    unfolding addEstimatedScores_def Let_def
    by (simp add: assign_range estimatedCategory_range e assms)
qed

lemma mergeIntoStructure_range:
  assumes "criteriaInRange scores" "categoriesInRange cats"
  shows "categoriesInRange (mergeIntoStructure i scores cats)"
proof (cases "map_of scores i")
  case None
  then show ?thesis using assms(2) by (simp add: mergeIntoStructure_def)
next
  case (Some c)
  have c: "inRange (score c)" using map_of_range [OF assms(1) Some] .
  have "categoriesInRange
          (modify cats ''content-structure''
             (\<lambda>cat. cat\<lparr>cat_criteria := assign (cat_criteria cat) i c,
                         cat_issues := cat_issues cat @ issues c\<rparr>))"
    using assms(2)
    by (rule modify_range) (simp add: categoryInRange_def assign_criteria c)
  then show ?thesis using Some by (simp add: mergeIntoStructure_def)
qed

lemma halfway_range:
  assumes "inRange a" "inRange b"
  shows "inRange ((a + b) / 2)"
  using assms by (simp add: inRange_def)

lemma Math_round_range:
  assumes "inRange x"
  shows "inRange (of_int (Math_round x))"
  using assms rounded_le [of x 10] rounded_ge0 [of x] by (simp add: inRange_def)

lemma mergeConflation_range:
  assumes "criteriaInRange scores" "categoriesInRange cats"
  shows "categoriesInRange (mergeConflation scores cats)"
proof (cases "map_of scores ''AV-02''")
  case None
  then show ?thesis using assms(2) by (simp add: mergeConflation_def)
next
  case (Some c)
  have c: "inRange (score c)" using map_of_range [OF assms(1) Some] .
  let ?f = "\<lambda>cat. case map_of (cat_criteria cat) ''AV-02'' of
                      None \<Rightarrow> cat
                    | Some existing \<Rightarrow>
                        cat\<lparr>cat_criteria :=
                          assign (cat_criteria cat) ''AV-02''
                            (existing\<lparr>score := of_int (Math_round ((score existing + score c) / 2)),
                                       issues := issues existing @ issues c\<rparr>)\<rparr>"
  have f: "categoryInRange (?f cat)" if cat: "categoryInRange cat" for cat
  proof (cases "map_of (cat_criteria cat) ''AV-02''")
    case None
    then show ?thesis using cat by simp
  next
    case (Some existing)
    have cr: "criteriaInRange (cat_criteria cat)" using cat by (simp add: categoryInRange_def)
    have "inRange (score existing)" using map_of_range [OF cr Some] .
    then have "inRange (of_int (Math_round ((score existing + score c) / 2)))"
      using c by (intro Math_round_range halfway_range)
    then have "criteriaInRange (assign (cat_criteria cat) ''AV-02''
                 (existing\<lparr>score := of_int (Math_round ((score existing + score c) / 2)),
                            issues := issues existing @ issues c\<rparr>))"
      using cr by (intro assign_criteria) simp_all
    then show ?thesis using Some cat
      by (simp add: categoryInRange_def)
  qed
  have "categoriesInRange (modify cats ''terminology'' ?f)"
    using assms(2) f by (rule modify_range)
  then show ?thesis using Some by (simp add: mergeConflation_def)
qed

lemma reaverage_range:
  assumes "categoriesInRange cats"
  shows "categoriesInRange (modify cats k (\<lambda>cat. cat\<lparr>cat_score := Some (averageScores (cat_criteria cat))\<rparr>))"
  using assms
  by (rule modify_range) (simp add: categoryInRange_def averageScores_range)

lemma addClaudeScores_range:
  assumes "criteriaInRange (ts_scores t)" "categoriesInRange (categories r)"
  shows "categoriesInRange (categories (addClaudeScores r t raw))"
proof -
  let ?s = "ts_scores t"
  have a: "categoriesInRange (assign cats k (claudeCategory cid name key ids ?s))"
    if "categoriesInRange cats" for cats k cid name key ids
    using that claudeCategory_range [OF assms(1)]
    by (rule assign_range)
  show ?thesis
    unfolding addClaudeScores_def Let_def
    by (simp add: reaverage_range mergeConflation_range mergeIntoStructure_range a assms)
qed

lemma sum_sec_scores:
  "foldl (\<lambda>acc s. acc + sec_score s) (a::rat) xs = a + sum_list (map sec_score xs)"
  by (induction xs arbitrary: a) (simp_all add: add.assoc)

lemma scoreSection_range: "inRange (sec_score (scoreSection cfg section))"
  by (simp add: scoreSection_def Let_def round1_range halfway_range
                scoreParagraphBrevity_range scoreListUsage_range)

lemma addSectionScores_range:
  assumes "categoriesInRange (categories r)"
  shows "categoriesInRange (categories (addSectionScores cfg r content))"
proof (cases "length (nc_sections content) = 0")
  case True
  then show ?thesis using assms by (simp add: addSectionScores_def)
next
  case False
  let ?scored = "map (scoreSection cfg) (nc_sections content)"
  let ?rollup = "round1 (foldl (\<lambda>acc s. acc + sec_score s) 0 ?scored / of_nat (length ?scored))"
  have "inRange (sum_list (map sec_score ?scored) / of_nat (length (map sec_score ?scored)))"
    using False by (intro mean_range) (auto simp: scoreSection_range)
  then have ro: "inRange ?rollup"
    by (simp add: sum_sec_scores round1_range)
  have n: "inRange (numberOr0 (cat_score cat))" if "categoryInRange cat" for cat
    using that by (auto simp: numberOr0_def categoryInRange_def inRange_def split: option.splits)
  have "categoriesInRange
          (modify (categories r) ''content-structure''
             (\<lambda>cat. cat\<lparr>sectionScores := ?scored, sectionRollup := Some ?rollup,
                         cat_score := Some (round1 ((numberOr0 (cat_score cat) + ?rollup) / 2))\<rparr>))"
    using assms
  proof (rule modify_range)
    fix v assume v: "categoryInRange v"
    have "inRange (round1 ((numberOr0 (cat_score v) + ?rollup) / 2))"
      by (intro round1_range halfway_range n v ro)
    then show "categoryInRange
                 (v\<lparr>sectionScores := ?scored, sectionRollup := Some ?rollup,
                    cat_score := Some (round1 ((numberOr0 (cat_score v) + ?rollup) / 2))\<rparr>)"
      using v by (simp add: categoryInRange_def)
  qed
  then show ?thesis using False
    by (simp add: addSectionScores_def Let_def)
qed

lemma effectiveWeight_nonneg:
  assumes "categoryInRange c"
  shows "0 \<le> effectiveWeight k c"
  using assms weightOf_nonneg [of k]
  by (auto simp: effectiveWeight_def categoryInRange_def split: option.splits)

lemma composite_sums:
  assumes "categoriesInRange cats"
  shows "0 \<le> sum_list (map (\<lambda>(k, c). the (cat_score c) * effectiveWeight k c)
                 (filter (\<lambda>(k, c). qualifies c) cats))
       \<and> sum_list (map (\<lambda>(k, c). the (cat_score c) * effectiveWeight k c)
                 (filter (\<lambda>(k, c). qualifies c) cats))
           \<le> 10 * sum_list (map (\<lambda>(k, c). effectiveWeight k c)
                      (filter (\<lambda>(k, c). qualifies c) cats))
       \<and> 0 \<le> sum_list (map (\<lambda>(k, c). effectiveWeight k c)
                   (filter (\<lambda>(k, c). qualifies c) cats))"
  using assms
proof (induction cats)
  case Nil
  then show ?case by simp
next
  case (Cons kc cats)
  obtain k c where kc: "kc = (k, c)" by (cases kc)
  have c: "categoryInRange c" and rest: "categoriesInRange cats"
    using Cons.prems kc by (simp_all add: categoriesInRange_def)
  note ih = Cons.IH [OF rest]
  show ?case
  proof (cases "qualifies c")
    case False
    then show ?thesis using ih kc by simp
  next
    case True
    then obtain s where s: "cat_score c = Some s" by (auto simp: qualifies_def)
    have sr: "0 \<le> s" "s \<le> 10" using c s by (simp_all add: categoryInRange_def inRange_def)
    have w: "0 \<le> effectiveWeight k c" using effectiveWeight_nonneg [OF c] .
    have l: "0 \<le> s * effectiveWeight k c" using sr(1) w by simp
    have u: "s * effectiveWeight k c \<le> 10 * effectiveWeight k c"
      using sr(2) w by (rule mult_right_mono)
    show ?thesis using ih l u w True s kc
      by (simp add: distrib_left add_mono)
  qed
qed

lemma calculateCompositeScore_range:
  assumes "categoriesInRange cats"
  shows "inRange (calculateCompositeScore cats)"
proof -
  let ?n = "sum_list (map (\<lambda>(k, c). the (cat_score c) * effectiveWeight k c)
                 (filter (\<lambda>(k, c). qualifies c) cats))"
  let ?d = "sum_list (map (\<lambda>(k, c). effectiveWeight k c) (filter (\<lambda>(k, c). qualifies c) cats))"
  have b: "0 \<le> ?n" "?n \<le> 10 * ?d" "0 \<le> ?d"
    using composite_sums [OF assms] by simp_all
  show ?thesis
  proof (cases "?d = 0")
    case True
    then show ?thesis
      by (simp add: calculateCompositeScore_def foldl_compositeStep inRange_def)
  next
    case False
    then have d: "0 < ?d" using b(3) by simp
    have "0 \<le> ?n / ?d" using b(1) d by simp
    moreover have "?n / ?d \<le> 10" using b(2) d by (simp add: pos_divide_le_eq)
    ultimately have "inRange (round1 (?n / ?d))"
      by (intro round1_range) (simp add: inRange_def)
    then show ?thesis using False
      by (simp add: calculateCompositeScore_def foldl_compositeStep)
  qed
qed

lemma finish_range:
  assumes "categoriesInRange (categories r)"
  shows "categoriesInRange (categories (finish r)) \<and> inRange (compositeScore (finish r))"
  using assms calculateCompositeScore_range [OF assms]
  by (simp add: finish_def Let_def)

text \<open>
  Where the code clamps. In a run of \<open>scoreAll\<close> without negative configured weights,
  on metrics as the parser computes them and with an in-range AV-01 score, every
  criterion score, every category score and the composite are in \<open>[0, 10]\<close>, provided
  the criterion scores the semantic path hands on, when it is taken, are in range:
  the evaluators and the Estimator clamp, the averages and blends preserve the range,
  and only the scores of the external model enter unchecked.
\<close>

lemma scoreAll_scores_in_range:
  assumes "weightsNonNegative cfg" "ratiosInRange ms" "inRange (score (av01 content))"
    and "\<And>sr. truthy apiKey \<Longrightarrow> semanticStep env = Inr sr \<Longrightarrow>
              criteriaInRange (ts_scores (sr_transformed sr))"
  shows "categoriesInRange (categories (fst (scoreAll cfg av01 env content ms apiKey)))
       \<and> inRange (compositeScore (fst (scoreAll cfg av01 env content ms apiKey)))"
proof -
  let ?r0 = "ruleStep cfg av01 env content ms apiKey"
  have r0: "categoriesInRange (categories ?r0)"
    using assms(1-3) by (rule ruleStep_range)
  have est: "categoriesInRange (categories (addEstimatedScores ?r0 content ms))"
    using r0 by (rule addEstimatedScores_range)
  have r1: "categoriesInRange (categories (fst (semanticOrEstimate env content ms apiKey ?r0)))"
  proof (cases "truthy apiKey")
    case False
    then show ?thesis using est by (simp add: semanticOrEstimate_def)
  next
    case True
    show ?thesis
    proof (cases "semanticStep env")
      case (Inl msg)
      then show ?thesis using True est by (simp add: semanticOrEstimate_def Let_def)
    next
      case (Inr sr)
      have "categoriesInRange (categories (addClaudeScores
              (?r0\<lparr>meta := (meta ?r0)\<lparr>claudeCache := Some (sr_cache sr)\<rparr>\<rparr>)
              (sr_transformed sr) (sr_raw sr)))"
        using assms(4) [OF True Inr] r0 by (intro addClaudeScores_range) simp_all
      then show ?thesis using True Inr by (simp add: semanticOrEstimate_def)
    qed
  qed
  obtain r saved where rs: "semanticOrEstimate env content ms apiKey ?r0 = (r, saved)"
    by (cases "semanticOrEstimate env content ms apiKey ?r0")
  have "categoriesInRange (categories r)" using r1 rs by simp
  then have "categoriesInRange (categories (addSectionScores cfg r content))"
    by (rule addSectionScores_range)
  then show ?thesis
    using finish_range [of "addSectionScores cfg r content"] rs
    by (simp add: scoreAll_def)
qed

lemma semanticStep_range:
  assumes "env_cached env = None" "env_claude env = Inr resp" "responseInRange resp"
  shows "\<exists>sr. semanticStep env = Inr sr \<and> criteriaInRange (ts_scores (sr_transformed sr))"
  using assms transformScores_range [OF assms(3)]
  by (simp add: semanticStep_def)

end
